theory Spec2Isabelle
  imports Main "HOL-Library.AList"
begin

section \<open>Python values\<close>

text \<open>
  The analysis records of the repository are JSON objects held in Python dicts. A dict
  keeps its keys in insertion order, an assignment to an existing key keeps the key's
  place and an assignment to a new key appends it: an association list updated with
  \<open>AList.update\<close>. JSON numbers are the integers (page numbers and counts); Python's
  \<open>True\<close> and \<open>False\<close> are kept apart from them.
\<close>

datatype json =
    JNull
  | JBool bool
  | JInt int
  | JStr string
  | JList "json list"
  | JDict "(string \<times> json) list"

type_synonym dict = "(string \<times> json) list"

type_synonym bytes = string

text \<open>The exceptions (subclasses of \<open>Exception\<close>) that the modelled code can raise.\<close>

datatype error =
    ValueError
  | TypeError
  | AttributeError
  | IndexError
  | KeyError
  | ZeroDivisionError
  | OverflowError
  | ClientError string

text \<open>Truth value of an object, as \<open>if x:\<close> tests it.\<close>

fun truthy :: "json \<Rightarrow> bool" where
  "truthy JNull = False"
| "truthy (JBool b) = b"
| "truthy (JInt i) = (i \<noteq> 0)"
| "truthy (JStr s) = (s \<noteq> [])"
| "truthy (JList xs) = (xs \<noteq> [])"
| "truthy (JDict kvs) = (kvs \<noteq> [])"

text \<open>\<open>d.get(k)\<close> and \<open>d.get(k, default)\<close>.\<close>

definition dict_get :: "dict \<Rightarrow> string \<Rightarrow> json" where
  "dict_get d k = (case map_of d k of None \<Rightarrow> JNull | Some v \<Rightarrow> v)"

definition dict_get_or :: "dict \<Rightarrow> string \<Rightarrow> json \<Rightarrow> json" where
  "dict_get_or d k dflt = (case map_of d k of None \<Rightarrow> dflt | Some v \<Rightarrow> v)"

text \<open>\<open>d[k] = v\<close>.\<close>

definition dict_set :: "dict \<Rightarrow> string \<Rightarrow> json \<Rightarrow> dict" where
  "dict_set d k v = AList.update k v d"

text \<open>
  \<open>x.get(k, default)\<close> on an arbitrary value: only a dict has the method, any other
  object raises AttributeError.
\<close>

definition json_get_or :: "json \<Rightarrow> string \<Rightarrow> json \<Rightarrow> error + json" where
  "json_get_or x k dflt = (case x of JDict d \<Rightarrow> Inr (dict_get_or d k dflt) | _ \<Rightarrow> Inl AttributeError)"

text \<open>\<open>min(xs)\<close> and \<open>max(xs)\<close> of a non-empty list of integers.\<close>

definition py_min :: "int list \<Rightarrow> int" where
  "py_min xs = fold min (tl xs) (hd xs)"

definition py_max :: "int list \<Rightarrow> int" where
  "py_max xs = fold max (tl xs) (hd xs)"

text \<open>
  Slices. An index below zero counts from the end, and every index is clamped to the
  list: \<open>xs[i:j]\<close> and \<open>xs[i:]\<close> never raise.
\<close>

definition slice_index :: "nat \<Rightarrow> int \<Rightarrow> nat" where
  "slice_index n i = (if i < 0 then nat (max 0 (int n + i)) else min n (nat i))"

definition py_slice :: "'a list \<Rightarrow> int \<Rightarrow> int \<Rightarrow> 'a list" where
  "py_slice xs i j =
     (let a = slice_index (length xs) i; b = slice_index (length xs) j
      in take (b - a) (drop a xs))"

definition py_slice_from :: "'a list \<Rightarrow> int \<Rightarrow> 'a list" where
  "py_slice_from xs i = drop (slice_index (length xs) i) xs"

text \<open>\<open>xs[i]\<close>: an index below zero counts from the end, out of range raises IndexError.\<close>

definition py_index :: "'a list \<Rightarrow> int \<Rightarrow> error + 'a" where
  "py_index xs i =
     (if 0 \<le> i \<and> i < int (length xs) then Inr (xs ! nat i)
      else if i < 0 \<and> - int (length xs) \<le> i then Inr (xs ! nat (int (length xs) + i))
      else Inl IndexError)"

section \<open>Result store (storage.py, class AnalysisStorage)\<close>

text \<open>
  The analyzer acts on the record \<open>world\<close>. The store is a directory of JSON
  files. The batch files are keyed by the page range in their name
  \<open>batch_SSS_EEE.json\<close> (the zero-padded decimals of two integers name a file one
  to one), the page files by a page number and the segment files by the segment
  identifier. Each family is an association list in directory order: a rewritten file
  keeps its place and a new file comes last. \<open>ticks\<close> counts the readings of
  \<open>datetime.now()\<close>; the rendered reading is the parameter \<open>now_iso\<close>.

  The remaining fields record what the analyzer does outside the store: every call of
  the Content Analysis Client (\<open>self.vlm.analyze_batch\<close>) with its images, start
  page and context, every call of the text-generation client (\<open>llm.generate\<close>)
  with its prompt, and the errors that \<open>generate_segment_summary\<close> reports with
  \<open>logger.warning\<close>.
\<close>

record world =
  batches :: "((int \<times> int) \<times> dict) list"
  page_files :: "(int \<times> dict) list"
  segments :: "(string \<times> dict) list"
  ticks :: nat
  vlm_calls :: "(bytes list \<times> int \<times> dict) list"
  llm_calls :: "string list"
  warnings :: "error list"

text \<open>\<open>datetime.now().isoformat()\<close>: reads the clock, which then has moved on.\<close>

definition now :: "(nat \<Rightarrow> string) \<Rightarrow> world \<Rightarrow> json \<times> world" where
  "now now_iso st = (JStr (now_iso (ticks st)), st\<lparr>ticks := Suc (ticks st)\<rparr>)"

text \<open>
  \<open>_load_json(filename, None)\<close>: the parsed file, and the empty dict when the file is
  missing, since the default \<open>None\<close> is replaced by \<open>{}\<close>.
\<close>

definition load_batch_analysis :: "world \<Rightarrow> int \<Rightarrow> int \<Rightarrow> dict" where
  "load_batch_analysis st start_page end_page =
     (case map_of (batches st) (start_page, end_page) of None \<Rightarrow> [] | Some d \<Rightarrow> d)"

text \<open>
  \<open>save_batch_analysis\<close> stamps the record, overwrites its \<open>page_range\<close> and writes
  the file. The dict is changed in place, so the caller sees the two new fields as well:
  the changed dict is returned together with the store.
\<close>

definition page_range_of :: "int \<Rightarrow> int \<Rightarrow> json" where
  "page_range_of start_page end_page = JDict [(''start'', JInt start_page), (''end'', JInt end_page)]"

definition save_batch_analysis ::
  "(nat \<Rightarrow> string) \<Rightarrow> int \<Rightarrow> int \<Rightarrow> dict \<Rightarrow> world \<Rightarrow> dict \<times> world" where
  "save_batch_analysis now_iso start_page end_page analysis st =
     (let (t, st1) = now now_iso st;
          analysis1 = dict_set analysis ''saved_at'' t;
          analysis2 = dict_set analysis1 ''page_range'' (page_range_of start_page end_page)
      in (analysis2, st1\<lparr>batches := AList.update (start_page, end_page) analysis2 (batches st1)\<rparr>))"

text \<open>
  \<open>list_batches\<close>: the page ranges of the batch files, sorted by start page (Python's
  \<open>sorted\<close> is stable, as \<open>sort_key\<close> is).
\<close>

definition list_batches :: "world \<Rightarrow> (int \<times> int) list" where
  "list_batches st = sort_key fst (map fst (batches st))"

text \<open>
  \<open>save_page_analysis\<close>: the file name formats the page number with \<open>:03d\<close>, which
  accepts an integer (and a bool, an integer in Python) and raises on any other value,
  before the record is touched.
\<close>

definition page_key :: "json \<Rightarrow> error + int" where
  "page_key v =
     (case v of JInt i \<Rightarrow> Inr i
      | JBool b \<Rightarrow> Inr (if b then 1 else 0)
      | JStr s \<Rightarrow> Inl ValueError
      | _ \<Rightarrow> Inl TypeError)"

definition save_page_analysis ::
  "(nat \<Rightarrow> string) \<Rightarrow> json \<Rightarrow> dict \<Rightarrow> world \<Rightarrow> (error + dict) \<times> world" where
  "save_page_analysis now_iso page_num analysis st =
     (case page_key page_num of
        Inl e \<Rightarrow> (Inl e, st)
      | Inr p \<Rightarrow>
          (let (t, st1) = now now_iso st;
               analysis1 = dict_set analysis ''saved_at'' t
           in (Inr analysis1, st1\<lparr>page_files := AList.update p analysis1 (page_files st1)\<rparr>)))"

definition load_segment_summary :: "world \<Rightarrow> string \<Rightarrow> dict" where
  "load_segment_summary st segment_id =
     (case map_of (segments st) segment_id of None \<Rightarrow> [] | Some d \<Rightarrow> d)"

definition save_segment_summary ::
  "(nat \<Rightarrow> string) \<Rightarrow> string \<Rightarrow> dict \<Rightarrow> world \<Rightarrow> dict \<times> world" where
  "save_segment_summary now_iso segment_id summary st =
     (let (t, st1) = now now_iso st;
          summary1 = dict_set summary ''saved_at'' t;
          summary2 = dict_set summary1 ''segment_id'' (JStr segment_id)
      in (summary2, st1\<lparr>segments := AList.update segment_id summary2 (segments st1)\<rparr>))"

section \<open>Analyzer (analyzer.py, class MangaAnalyzer)\<close>

text \<open>
  What the analyzer reaches outside the repository is a parameter of the model:
  \<^item> \<open>now_iso\<close>: the text of the \<open>n\<close>-th reading of the clock;
  \<^item> \<open>file_bytes\<close>: the content of the image file at a path, if the file exists;
  \<^item> \<open>vlm_client\<close>: the answer of the Content Analysis Client to its \<open>n\<close>-th call
    (images, start page, context): a result dict or an error;
  \<^item> \<open>llm_client\<close>: the answer of the text-generation client to its \<open>n\<close>-th call;
  \<^item> \<open>format_previous_results\<close>, \<open>format_batch_line\<close>, \<open>segment_prompt\<close>: the
    rendering of prior results, of a member's summary line and of the prompt, which are
    text templates;
  \<^item> \<open>parse_response\<close>: the reply with its code fences stripped, read by
    \<open>json.loads\<close>; \<open>None\<close> is JSONDecodeError;
  \<^item> \<open>update_from_sequence\<close>: \<open>dict.update\<close> with an argument that is not a
    mapping. Python reads it as a sequence of key-value pairs and raises at the first
    element that is not one, keeping the pairs before it.
\<close>

record services =
  now_iso :: "nat \<Rightarrow> string"
  file_bytes :: "json \<Rightarrow> bytes option"
  vlm_client :: "nat \<Rightarrow> bytes list \<Rightarrow> int \<Rightarrow> dict \<Rightarrow> error + dict"
  llm_client :: "nat \<Rightarrow> string \<Rightarrow> error + string"
  format_previous_results :: "dict list \<Rightarrow> string"
  format_batch_line :: "json \<Rightarrow> json \<Rightarrow> json \<Rightarrow> string"
  segment_prompt :: "nat \<Rightarrow> int \<Rightarrow> int \<Rightarrow> string list \<Rightarrow> string \<Rightarrow> string"
  parse_response :: "string \<Rightarrow> json option"
  update_from_sequence :: "dict \<Rightarrow> json \<Rightarrow> error option \<times> dict"

subsection \<open>analyze_batch\<close>

text \<open>\<open>_get_image_from_info\<close>: the image of a page, ValueError when it cannot be read.\<close>

definition get_image_from_info :: "services \<Rightarrow> int \<Rightarrow> dict option \<Rightarrow> error + bytes" where
  "get_image_from_info sv page_num image_info =
     (case image_info of
        None \<Rightarrow> Inl ValueError
      | Some info \<Rightarrow>
          if info = [] then Inl ValueError
          else (let image_path = dict_get info ''path'' in
                if truthy image_path
                then (case file_bytes sv image_path of Some b \<Rightarrow> Inr b | None \<Rightarrow> Inl ValueError)
                else Inl ValueError))"

text \<open>\<open>image_infos[i] if image_infos and i < len(image_infos) else None\<close>.\<close>

definition image_info_at :: "dict option list option \<Rightarrow> nat \<Rightarrow> dict option" where
  "image_info_at image_infos i =
     (case image_infos of
        None \<Rightarrow> None
      | Some infos \<Rightarrow> if infos \<noteq> [] \<and> i < length infos then infos ! i else None)"

text \<open>The loop over \<open>enumerate(page_nums)\<close> that reads the images; the first failure raises.\<close>

fun read_images :: "services \<Rightarrow> dict option list option \<Rightarrow> (nat \<times> int) list \<Rightarrow> error + bytes list" where
  "read_images sv image_infos [] = Inr []"
| "read_images sv image_infos ((i, page_num) # rest) =
     (case get_image_from_info sv page_num (image_info_at image_infos i) of
        Inl e \<Rightarrow> Inl e
      | Inr img \<Rightarrow>
          (case read_images sv image_infos rest of
             Inl e \<Rightarrow> Inl e
           | Inr imgs \<Rightarrow> Inr (img # imgs)))"

text \<open>
  \<open>_build_batch_context\<close>: the prior results handed in, if there are any; otherwise,
  past page 1, the stored batch that ends before this one, the last such in
  \<open>list_batches\<close> order (the loop breaks at the first match from the end, whether or
  not its file holds anything).
\<close>

definition context_of :: "services \<Rightarrow> dict list \<Rightarrow> dict" where
  "context_of sv results =
     [(''previous_summary'', JStr (format_previous_results sv results)),
      (''context_batch_count'', JInt (int (length results)))]"

definition build_batch_context :: "services \<Rightarrow> world \<Rightarrow> int \<Rightarrow> dict list option \<Rightarrow> dict" where
  "build_batch_context sv st start_page previous_results =
     (case previous_results of
        Some (r # rs) \<Rightarrow> context_of sv (r # rs)
      | _ \<Rightarrow>
          if start_page > 1
          then (case find (\<lambda>(s, e). e < start_page) (rev (list_batches st)) of
                  None \<Rightarrow> []
                | Some (s, e) \<Rightarrow>
                    (let batch_data = load_batch_analysis st s e
                     in if batch_data \<noteq> [] then context_of sv [batch_data] else []))
          else [])"

text \<open>\<open>len(x)\<close> is defined on strings, lists and dicts, and raises TypeError otherwise.\<close>

definition has_len :: "json \<Rightarrow> bool" where
  "has_len v = (case v of JStr s \<Rightarrow> True | JList xs \<Rightarrow> True | JDict d \<Rightarrow> True | _ \<Rightarrow> False)"

text \<open>
  The loop that fans the per-page results out to the page files. A page entry that is
  not a dict has no \<open>get\<close>; an entry with a page number is tagged and saved, and the
  tags stay on the entry of the returned result (the dicts are changed in place).
\<close>

fun save_pages :: "services \<Rightarrow> int \<Rightarrow> int \<Rightarrow> json \<Rightarrow> json list \<Rightarrow> world \<Rightarrow> (error + json list) \<times> world" where
  "save_pages sv start_page end_page analyzed_at [] st = (Inr [], st)"
| "save_pages sv start_page end_page analyzed_at (page_data # rest) st =
     (case page_data of
        JDict pd \<Rightarrow>
          (let page_num = dict_get pd ''page_number'' in
           if truthy page_num
           then (let pd1 = dict_set pd ''from_batch'' (JBool True);
                     pd2 = dict_set pd1 ''batch_range'' (page_range_of start_page end_page);
                     pd3 = dict_set pd2 ''analyzed_at'' analyzed_at
                 in case save_page_analysis (now_iso sv) page_num pd3 st of
                      (Inl e, st1) \<Rightarrow> (Inl e, st1)
                    | (Inr pd4, st1) \<Rightarrow>
                        (case save_pages sv start_page end_page analyzed_at rest st1 of
                           (Inl e, st2) \<Rightarrow> (Inl e, st2)
                         | (Inr rest', st2) \<Rightarrow> (Inr (JDict pd4 # rest'), st2)))
           else (case save_pages sv start_page end_page analyzed_at rest st of
                   (Inl e, st2) \<Rightarrow> (Inl e, st2)
                 | (Inr rest', st2) \<Rightarrow> (Inr (JDict pd # rest'), st2)))
      | _ \<Rightarrow> (Inl AttributeError, st))"

text \<open>
  \<open>if result.get("pages"): for page_data in result["pages"]: ...\<close>. Iterating a
  string or a dict yields strings, which have no \<open>get\<close>.
\<close>

definition save_result_pages :: "services \<Rightarrow> int \<Rightarrow> int \<Rightarrow> dict \<Rightarrow> world \<Rightarrow> (error + dict) \<times> world" where
  "save_result_pages sv start_page end_page result st =
     (let pages = dict_get result ''pages'' in
      if truthy pages
      then (case pages of
              JList ps \<Rightarrow>
                (case save_pages sv start_page end_page (dict_get result ''analyzed_at'') ps st of
                   (Inl e, st1) \<Rightarrow> (Inl e, st1)
                 | (Inr ps', st1) \<Rightarrow> (Inr (dict_set result ''pages'' (JList ps')), st1))
            | JStr s \<Rightarrow> (Inl AttributeError, st)
            | JDict d \<Rightarrow> (Inl AttributeError, st)
            | _ \<Rightarrow> (Inl TypeError, st))
      else (Inr result, st))"

text \<open>
  The body of \<open>analyze_batch\<close> after the cache check: read the images, build the
  context, call the client, stamp and save the result, save its pages.
\<close>

definition analyze_batch_fresh ::
  "services \<Rightarrow> int list \<Rightarrow> int \<Rightarrow> int \<Rightarrow> bytes list option \<Rightarrow> dict option list option \<Rightarrow>
   dict list option \<Rightarrow> world \<Rightarrow> (error + dict) \<times> world" where
  "analyze_batch_fresh sv page_nums start_page end_page images image_infos previous_results st =
     (case (case images of
              Some imgs \<Rightarrow> Inr imgs
            | None \<Rightarrow> read_images sv image_infos (enumerate 0 page_nums)) of
        Inl e \<Rightarrow> (Inl e, st)
      | Inr imgs \<Rightarrow>
          (let ctx = build_batch_context sv st start_page previous_results;
               st1 = st\<lparr>vlm_calls := vlm_calls st @ [(imgs, start_page, ctx)]\<rparr>
           in case vlm_client sv (length (vlm_calls st)) imgs start_page ctx of
                Inl e \<Rightarrow> (Inl e, st1)
              | Inr result \<Rightarrow>
                  if \<not> has_len (dict_get_or result ''pages'' (JList []))
                  then (Inl TypeError, st1)
                  else (let (t, st2) = now (now_iso sv) st1;
                            result1 = dict_set result ''analyzed_at'' t;
                            result2 = dict_set result1 ''analysis_mode'' (JStr ''batch'');
                            (result3, st3) = save_batch_analysis (now_iso sv) start_page end_page result2 st2
                        in save_result_pages sv start_page end_page result3 st3)))"

text \<open>
  \<open>analyze_batch(page_nums, images, image_infos, force, previous_results)\<close>. The
  cached record is used when \<open>cached and not cached.get("parse_error")\<close>; the empty
  dict, which \<open>load_batch_analysis\<close> also returns for a missing file, counts as no
  record.
\<close>

definition analyze_batch ::
  "services \<Rightarrow> int list \<Rightarrow> bytes list option \<Rightarrow> dict option list option \<Rightarrow> bool \<Rightarrow>
   dict list option \<Rightarrow> world \<Rightarrow> (error + dict) \<times> world" where
  "analyze_batch sv page_nums images image_infos force previous_results st =
     (if page_nums = [] then (Inr [], st)
      else (let start_page = py_min page_nums;
                end_page = py_max page_nums;
                cached = (if force then [] else load_batch_analysis st start_page end_page)
            in if \<not> force \<and> cached \<noteq> [] \<and> \<not> truthy (dict_get cached ''parse_error'')
               then (Inr cached, st)
               else analyze_batch_fresh sv page_nums start_page end_page images image_infos
                      previous_results st))"

subsection \<open>generate_segment_summary\<close>

text \<open>
  The value of a number in \<open>min\<close> and \<open>max\<close> against a number; comparing any other
  object with a number raises TypeError.
\<close>

definition num_of :: "json \<Rightarrow> error + int" where
  "num_of v =
     (case v of JInt i \<Rightarrow> Inr i
      | JBool b \<Rightarrow> Inr (if b then 1 else 0)
      | _ \<Rightarrow> Inl TypeError)"

text \<open>
  The elements that \<open>list.extend(x)\<close> appends: those of a list, the characters of a
  string, the keys of a dict; any other object is not iterable.
\<close>

definition iter_json :: "json \<Rightarrow> error + json list" where
  "iter_json v =
     (case v of JList xs \<Rightarrow> Inr xs
      | JStr s \<Rightarrow> Inr (map (\<lambda>c. JStr [c]) s)
      | JDict d \<Rightarrow> Inr (map (\<lambda>kv. JStr (fst kv)) d)
      | _ \<Rightarrow> Inl TypeError)"

text \<open>\<open>sep.join(xs)\<close>.\<close>

fun join :: "string \<Rightarrow> string list \<Rightarrow> string" where
  "join sep [] = []"
| "join sep [x] = x"
| "join sep (x # y # ys) = x @ sep @ join sep (y # ys)"

text \<open>
  The four variables of the collecting loop. \<open>acc_start\<close> is \<open>None\<close> while
  \<open>start_page\<close> still is \<open>float('inf')\<close>.
\<close>

record collected =
  acc_summaries :: "string list"
  acc_events :: "json list"
  acc_start :: "int option"
  acc_end :: int

definition collect_batch :: "services \<Rightarrow> dict \<Rightarrow> collected \<Rightarrow> error + collected" where
  "collect_batch sv batch acc =
     (let page_range = dict_get_or batch ''page_range'' (JDict []) in
      case json_get_or page_range ''start'' (JInt 0) of
        Inl e \<Rightarrow> Inl e
      | Inr batch_start \<Rightarrow>
      (case json_get_or page_range ''end'' (JInt 0) of
        Inl e \<Rightarrow> Inl e
      | Inr batch_end \<Rightarrow>
      (case num_of batch_start of
        Inl e \<Rightarrow> Inl e
      | Inr s \<Rightarrow>
      (case num_of batch_end of
        Inl e \<Rightarrow> Inl e
      | Inr e \<Rightarrow>
          (let summary = dict_get_or batch ''batch_summary'' (JStr []);
               summaries =
                 (if truthy summary
                  then acc_summaries acc @ [format_batch_line sv batch_start batch_end summary]
                  else acc_summaries acc)
           in case iter_json (dict_get_or batch ''key_events'' (JList [])) of
                Inl err \<Rightarrow> Inl err
              | Inr events \<Rightarrow>
                  Inr \<lparr>acc_summaries = summaries,
                       acc_events = acc_events acc @ events,
                       acc_start = Some (case acc_start acc of None \<Rightarrow> s | Some a \<Rightarrow> min a s),
                       acc_end = max (acc_end acc) e\<rparr>)))))"

fun collect_batches :: "services \<Rightarrow> dict list \<Rightarrow> collected \<Rightarrow> error + collected" where
  "collect_batches sv [] acc = Inr acc"
| "collect_batches sv (batch # rest) acc =
     (case collect_batch sv batch acc of
        Inl e \<Rightarrow> Inl e
      | Inr acc' \<Rightarrow> collect_batches sv rest acc')"

text \<open>The variables before the loop: no summary, no event, \<open>float('inf')\<close> and 0.\<close>

definition no_summaries :: collected where
  "no_summaries = \<lparr>acc_summaries = [], acc_events = [], acc_start = None, acc_end = 0\<rparr>"

text \<open>The synopsis used when the reply cannot be had or read: the first three lines.\<close>

definition fallback_summary :: "string list \<Rightarrow> json" where
  "fallback_summary summaries = JStr (join [CHR 0x0A] (take 3 summaries))"

text \<open>
  The \<open>try\<close> block of \<open>generate_segment_summary\<close>. An error of the text-generation
  call, or of \<open>update\<close>, is caught here, reported with \<open>logger.warning\<close> and
  answered with the fallback synopsis; a reply that is not JSON is answered with the
  fallback synopsis without a report. Nothing is raised to the caller. (Building the
  client and closing it are taken not to fail.)
\<close>

definition summarize_with_llm ::
  "services \<Rightarrow> string \<Rightarrow> nat \<Rightarrow> int \<Rightarrow> int \<Rightarrow> string list \<Rightarrow> dict \<Rightarrow> world \<Rightarrow> dict \<times> world" where
  "summarize_with_llm sv segment_id batch_count s e summaries segment_data st =
     (let prompt = segment_prompt sv batch_count s e summaries segment_id;
          st1 = st\<lparr>llm_calls := llm_calls st @ [prompt]\<rparr>
      in case llm_client sv (length (llm_calls st)) prompt of
           Inl err \<Rightarrow>
             (dict_set segment_data ''summary'' (fallback_summary summaries),
              st1\<lparr>warnings := warnings st1 @ [err]\<rparr>)
         | Inr response \<Rightarrow>
             (case parse_response sv response of
                None \<Rightarrow> (dict_set segment_data ''summary'' (fallback_summary summaries), st1)
              | Some (JDict parsed) \<Rightarrow> (fold (\<lambda>kv d. dict_set d (fst kv) (snd kv)) parsed segment_data, st1)
              | Some other \<Rightarrow>
                  (case update_from_sequence sv segment_data other of
                     (None, d) \<Rightarrow> (d, st1)
                   | (Some err, d) \<Rightarrow>
                       (dict_set d ''summary'' (fallback_summary summaries),
                        st1\<lparr>warnings := warnings st1 @ [err]\<rparr>))))"

definition generate_segment_summary ::
  "services \<Rightarrow> string \<Rightarrow> dict list \<Rightarrow> bool \<Rightarrow> world \<Rightarrow> (error + dict) \<times> world" where
  "generate_segment_summary sv segment_id batch_results force st =
     (if batch_results = [] then (Inr [], st)
      else (let cached = (if force then [] else load_segment_summary st segment_id)
            in if \<not> force \<and> cached \<noteq> [] then (Inr cached, st)
               else (case collect_batches sv batch_results no_summaries of
                       Inl e \<Rightarrow> (Inl e, st)
                     | Inr acc \<Rightarrow>
                         (case acc_start acc of
                            None \<Rightarrow> (Inl OverflowError, st)
                          | Some s \<Rightarrow>
                              (let segment_data =
                                     [(''segment_id'', JStr segment_id),
                                      (''page_range'', page_range_of s (acc_end acc)),
                                      (''summary'', JStr []),
                                      (''key_events'', JList (take 10 (acc_events acc))),
                                      (''plot_progression'', JStr []),
                                      (''themes'', JList []),
                                      (''batch_count'', JInt (int (length batch_results)))];
                                   (segment_data1, st1) =
                                     summarize_with_llm sv segment_id (length batch_results) s (acc_end acc)
                                       (acc_summaries acc) segment_data st;
                                   (t, st2) = now (now_iso sv) st1;
                                   segment_data2 = dict_set segment_data1 ''generated_at'' t;
                                   (segment_data3, st3) =
                                     save_segment_summary (now_iso sv) segment_id segment_data2 st2
                               in (Inr segment_data3, st3))))))"

section \<open>Task manager (task_manager.py, class AnalysisTaskManager)\<close>

subsection \<open>Tasks\<close>

text \<open>
  Modelled from the spec: the module \<open>task_models\<close> (\<open>TaskStatus\<close>, \<open>TaskType\<close>,
  \<open>AnalysisProgress\<close>, \<open>AnalysisTask\<close>) is not among the sources. The types below
  have the members and fields that \<open>task_manager.py\<close> reads and writes, with the
  meaning the spec's data model gives them; a new task is \<open>Pending\<close>, has no failed
  pages and no progress. Times are readings of the clock.
\<close>

datatype task_status = Pending | Running | Paused | Completed | Failed | Cancelled

datatype task_type = FullBook | Chapter | Incremental | Reanalyze

record analysis_progress =
  total_pages :: int
  analyzed_pages :: int
  current_phase :: string
  current_page :: int

record task =
  task_id :: string
  book_id :: string
  task_type :: task_type
  target_chapters :: "string list option"
  target_pages :: "int list option"
  is_incremental :: bool
  status :: task_status
  progress :: analysis_progress
  failed_pages :: "int list"
  created_at :: nat
  started_at :: "nat option"
  completed_at :: "nat option"
  error_message :: "error option"

definition new_task ::
  "string \<Rightarrow> nat \<Rightarrow> string \<Rightarrow> task_type \<Rightarrow> string list option \<Rightarrow> int list option \<Rightarrow> bool \<Rightarrow> task" where
  "new_task new_id t book ty chapters pages incremental =
     \<lparr>task_id = new_id, book_id = book, task_type = ty, target_chapters = chapters,
      target_pages = pages, is_incremental = incremental, status = Pending,
      progress = \<lparr>total_pages = 0, analyzed_pages = 0, current_phase = [], current_page = 0\<rparr>,
      failed_pages = [], created_at = t, started_at = None, completed_at = None,
      error_message = None\<rparr>"

subsection \<open>The controller\<close>

text \<open>
  The fields of the singleton, each dict an association list. A \<open>threading.Event\<close> is
  the bool that says whether it is set. A worker thread is named by its number;
  \<open>threads\<close> counts the threads started so far.
\<close>

record manager =
  tasks :: "(string \<times> task) list"
  running_tasks :: "(string \<times> nat) list"
  book_tasks :: "(string \<times> string list) list"
  pause_events :: "(string \<times> bool) list"
  cancel_flags :: "(string \<times> bool) list"
  threads :: nat

definition new_manager :: manager where
  "new_manager = \<lparr>tasks = [], running_tasks = [], book_tasks = [], pause_events = [],
                   cancel_flags = [], threads = 0\<rparr>"

text \<open>
  \<open>create_task\<close>. The identifier that the constructor of \<open>AnalysisTask\<close> draws and
  the time of creation are arguments.
\<close>

definition create_task ::
  "string \<Rightarrow> nat \<Rightarrow> string \<Rightarrow> task_type \<Rightarrow> string list option \<Rightarrow> int list option \<Rightarrow> bool \<Rightarrow>
   manager \<Rightarrow> task \<times> manager" where
  "create_task new_id t book ty chapters pages incremental m =
     (let task = new_task new_id t book ty chapters pages incremental;
          listed = (case map_of (book_tasks m) book of None \<Rightarrow> [] | Some tids \<Rightarrow> tids)
      in (task,
          m\<lparr>tasks := AList.update new_id task (tasks m),
            book_tasks := AList.update book (listed @ [new_id]) (book_tasks m),
            pause_events := AList.update new_id True (pause_events m),
            cancel_flags := AList.update new_id False (cancel_flags m)\<rparr>))"

text \<open>A write to a field of the task object, which the controller and the worker share.\<close>

definition update_task :: "string \<Rightarrow> (task \<Rightarrow> task) \<Rightarrow> manager \<Rightarrow> manager" where
  "update_task tid f m = m\<lparr>tasks := AList.map_entry tid f (tasks m)\<rparr>"

text \<open>
  The scan of \<open>start_task\<close> over \<open>self.book_tasks.get(book_id, [])\<close>: is a task
  listed there, other than this one, running?
\<close>

definition other_running :: "manager \<Rightarrow> string \<Rightarrow> string \<Rightarrow> bool" where
  "other_running m book tid =
     list_ex
       (\<lambda>tid'. case map_of (tasks m) tid' of
                 None \<Rightarrow> False
               | Some other_task \<Rightarrow> task_id other_task \<noteq> tid \<and> status other_task = Running)
       (case map_of (book_tasks m) book of None \<Rightarrow> [] | Some tids \<Rightarrow> tids)"

text \<open>
  \<open>start_task\<close>, at time \<open>t\<close>. On success the task is \<open>Running\<close>, a thread that
  runs \<open>_execute_task\<close> is started and entered into \<open>running_tasks\<close>.
\<close>

definition start_task :: "nat \<Rightarrow> string \<Rightarrow> manager \<Rightarrow> bool \<times> manager" where
  "start_task t tid m =
     (case map_of (tasks m) tid of
        None \<Rightarrow> (False, m)
      | Some task \<Rightarrow>
          if status task = Running then (False, m)
          else if other_running m (book_id task) tid then (False, m)
          else (let m1 = update_task tid (\<lambda>k. k\<lparr>status := Running, started_at := Some t\<rparr>) m
                in (True, m1\<lparr>running_tasks := AList.update tid (threads m1) (running_tasks m1),
                              threads := Suc (threads m1)\<rparr>)))"

text \<open>
  \<open>pause_task\<close> and \<open>resume_task\<close>. \<open>self._pause_events[task_id]\<close> raises KeyError
  for a task without an event, after the status has been written.
\<close>

definition pause_task :: "string \<Rightarrow> manager \<Rightarrow> (error + bool) \<times> manager" where
  "pause_task tid m =
     (case map_of (tasks m) tid of
        None \<Rightarrow> (Inr False, m)
      | Some task \<Rightarrow>
          if status task \<noteq> Running then (Inr False, m)
          else (let m1 = update_task tid (\<lambda>k. k\<lparr>status := Paused\<rparr>) m
                in case map_of (pause_events m1) tid of
                     None \<Rightarrow> (Inl KeyError, m1)
                   | Some ev \<Rightarrow> (Inr True, m1\<lparr>pause_events := AList.update tid False (pause_events m1)\<rparr>)))"

definition resume_task :: "string \<Rightarrow> manager \<Rightarrow> (error + bool) \<times> manager" where
  "resume_task tid m =
     (case map_of (tasks m) tid of
        None \<Rightarrow> (Inr False, m)
      | Some task \<Rightarrow>
          if status task \<noteq> Paused then (Inr False, m)
          else (let m1 = update_task tid (\<lambda>k. k\<lparr>status := Running\<rparr>) m
                in case map_of (pause_events m1) tid of
                     None \<Rightarrow> (Inl KeyError, m1)
                   | Some ev \<Rightarrow> (Inr True, m1\<lparr>pause_events := AList.update tid True (pause_events m1)\<rparr>)))"

text \<open>
  \<open>cancel_task\<close>: from \<open>Pending\<close>, \<open>Running\<close> or \<open>Paused\<close>; writes the status and
  the flag, and sets the event if the task has one.
\<close>

definition cancel_task :: "string \<Rightarrow> manager \<Rightarrow> bool \<times> manager" where
  "cancel_task tid m =
     (case map_of (tasks m) tid of
        None \<Rightarrow> (False, m)
      | Some task \<Rightarrow>
          if status task \<notin> {Pending, Running, Paused} then (False, m)
          else (let m1 = update_task tid (\<lambda>k. k\<lparr>status := Cancelled\<rparr>) m;
                    m2 = m1\<lparr>cancel_flags := AList.update tid True (cancel_flags m1)\<rparr>
                in (True,
                    case map_of (pause_events m2) tid of
                      None \<Rightarrow> m2
                    | Some ev \<Rightarrow> m2\<lparr>pause_events := AList.update tid True (pause_events m2)\<rparr>)))"

text \<open>A call of the controller by the route layer, and its effect on the manager.\<close>

datatype ctl = Start string nat | Pause string | Resume string | Cancel string

fun apply_ctl :: "ctl \<Rightarrow> manager \<Rightarrow> manager" where
  "apply_ctl (Start tid t) m = snd (start_task t tid m)"
| "apply_ctl (Pause tid) m = snd (pause_task tid m)"
| "apply_ctl (Resume tid) m = snd (resume_task tid m)"
| "apply_ctl (Cancel tid) m = snd (cancel_task tid m)"

subsection \<open>The worker\<close>

text \<open>
  What the worker thread of a task does is recorded in a trace:
  \<^item> \<open>BatchCall\<close>: \<open>analyzer.analyze_batch\<close> is called with these page numbers and
    these prior results (the \<open>logger.info\<close> of \<open>_analyze_single_batch\<close>);
  \<^item> \<open>BatchFailed\<close>: the call raised (its \<open>logger.error\<close>);
  \<^item> \<open>SegmentCall\<close>: \<open>analyzer.generate_segment_summary\<close> is called with this
    segment identifier and this group (the \<open>logger.info\<close> of the summary layer);
  \<^item> \<open>SegmentFailed\<close>: the call raised (its \<open>logger.error\<close>);
  \<^item> \<open>Notified\<close>: \<open>_notify_progress\<close> hands this snapshot to the callbacks, whose
    own errors are caught there.
\<close>

datatype event =
    BatchCall "int list" "dict list"
  | BatchFailed "int list" error
  | SegmentCall string "dict list"
  | SegmentFailed string error
  | Notified analysis_progress

text \<open>
  The worker runs beside the route layer's threads. \<open>pending\<close> holds the controller
  calls still to come from them, in groups: one group has arrived whenever the worker
  reaches a checkpoint, and while the worker waits on a cleared event the next groups
  arrive one after the other. A worker that waits when no call is left waits forever.
\<close>

record worker =
  mgr :: manager
  wld :: world
  pending :: "ctl list list"
  trace :: "event list"

definition cancel_flagged :: "manager \<Rightarrow> string \<Rightarrow> bool" where
  "cancel_flagged m tid = (map_of (cancel_flags m) tid = Some True)"

definition event_cleared :: "manager \<Rightarrow> string \<Rightarrow> bool" where
  "event_cleared m tid = (map_of (pause_events m) tid = Some False)"

text \<open>\<open>pause_event.wait()\<close>: returns once the event is set.\<close>

fun wait_event :: "string \<Rightarrow> ctl list list \<Rightarrow> manager \<Rightarrow> (ctl list list \<times> manager) option" where
  "wait_event tid [] m = (if event_cleared m tid then None else Some ([], m))"
| "wait_event tid (cs # rest) m =
     (if event_cleared m tid then wait_event tid rest (fold apply_ctl cs m)
      else Some (cs # rest, m))"

definition arrive :: "worker \<Rightarrow> worker" where
  "arrive w =
     (case pending w of
        [] \<Rightarrow> w
      | cs # rest \<Rightarrow> w\<lparr>mgr := fold apply_ctl cs (mgr w), pending := rest\<rparr>)"

text \<open>
  \<open>_check_pause_and_cancel\<close>: \<open>False\<close> (stop) if the cancel flag is up; otherwise wait
  until the event is set, then look at the flag again. \<open>None\<close> is the worker that never
  comes back from the wait.
\<close>

definition check_pause_and_cancel :: "string \<Rightarrow> worker \<Rightarrow> (bool \<times> worker) option" where
  "check_pause_and_cancel tid w =
     (let w1 = arrive w in
      if cancel_flagged (mgr w1) tid then Some (False, w1)
      else (case wait_event tid (pending w1) (mgr w1) of
              None \<Rightarrow> None
            | Some (rest, m') \<Rightarrow> Some (\<not> cancel_flagged m' tid, w1\<lparr>mgr := m', pending := rest\<rparr>)))"

definition notify_progress :: "string \<Rightarrow> worker \<Rightarrow> worker" where
  "notify_progress tid w =
     (case map_of (tasks (mgr w)) tid of
        None \<Rightarrow> w
      | Some task \<Rightarrow> w\<lparr>trace := trace w @ [Notified (progress task)]\<rparr>)"

definition write_task :: "string \<Rightarrow> (task \<Rightarrow> task) \<Rightarrow> worker \<Rightarrow> worker" where
  "write_task tid f w = w\<lparr>mgr := update_task tid f (mgr w)\<rparr>"

text \<open>\<open>[all_images[p - 1] for p in page_nums]\<close>.\<close>

fun images_for :: "dict list \<Rightarrow> int list \<Rightarrow> error + dict list" where
  "images_for all_images [] = Inr []"
| "images_for all_images (p # ps) =
     (case py_index all_images (p - 1) of
        Inl e \<Rightarrow> Inl e
      | Inr info \<Rightarrow>
          (case images_for all_images ps of
             Inl e \<Rightarrow> Inl e
           | Inr infos \<Rightarrow> Inr (info # infos)))"

text \<open>
  The prior results given to a batch as context: with a positive
  \<open>context_batch_count\<close>, \<open>valid_results[-context_batch_count:]\<close> of the results not
  flagged \<open>parse_error\<close>; none otherwise. The same lines stand in
  \<open>_analyze_single_batch\<close> and in \<open>analyze_chapter_with_segments\<close>.
\<close>

definition previous_results_for :: "int \<Rightarrow> dict list \<Rightarrow> dict list" where
  "previous_results_for context_batch_count batch_results =
     (if context_batch_count > 0
      then py_slice_from (filter (\<lambda>r. \<not> truthy (dict_get r ''parse_error'')) batch_results)
             (- context_batch_count)
      else [])"

text \<open>
  \<open>_analyze_single_batch\<close>: the result of the batch, \<open>None\<close> when its analysis raised.
  The image lookup and \<open>page_nums[0]\<close> stand before the \<open>try\<close>, so their IndexError
  is raised to the caller.
\<close>

definition analyze_single_batch ::
  "services \<Rightarrow> string \<Rightarrow> dict list \<Rightarrow> int list \<Rightarrow> nat \<Rightarrow> int \<Rightarrow> dict list \<Rightarrow> int \<Rightarrow> worker \<Rightarrow>
   (error + dict option) \<times> worker" where
  "analyze_single_batch sv tid all_images page_nums batch_idx total_batches batch_results
     context_batch_count w =
     (case images_for all_images page_nums of
        Inl e \<Rightarrow> (Inl e, w)
      | Inr image_infos \<Rightarrow>
          (case page_nums of
             [] \<Rightarrow> (Inl IndexError, w)
           | first_page # later_pages \<Rightarrow>
               (let w1 = write_task tid
                           (\<lambda>k. k\<lparr>progress := (progress k)\<lparr>current_page := first_page\<rparr>\<rparr>) w;
                    previous_results = previous_results_for context_batch_count batch_results;
                    w2 = w1\<lparr>trace := trace w1 @ [BatchCall page_nums previous_results]\<rparr>
                in case analyze_batch sv page_nums None (Some (map Some image_infos)) True
                          (Some previous_results) (wld w2) of
                     (Inr result, st') \<Rightarrow>
                       (Inr (Some result),
                        notify_progress tid
                          (write_task tid
                             (\<lambda>k. k\<lparr>progress := (progress k)\<lparr>analyzed_pages := last page_nums\<rparr>\<rparr>)
                             (w2\<lparr>wld := st'\<rparr>)))
                   | (Inl e, st') \<Rightarrow>
                       (Inr None,
                        notify_progress tid
                          (write_task tid
                             (\<lambda>k. k\<lparr>failed_pages := failed_pages k @ page_nums,
                                    progress := (progress k)\<lparr>analyzed_pages := last page_nums\<rparr>\<rparr>)
                             (w2\<lparr>wld := st', trace := trace w2 @ [BatchFailed page_nums e]\<rparr>))))))"

subsection \<open>The batch-analysis layer\<close>

text \<open>
  \<open>range(0, n, step)\<close>: a zero step raises ValueError, a negative one gives nothing.
\<close>

definition range_step :: "nat \<Rightarrow> int \<Rightarrow> error + int list" where
  "range_step n step =
     (if step = 0 then Inl ValueError
      else if step < 0 then Inr []
      else Inr (map (\<lambda>j. int j * step) [0..<nat ((int n + step - 1) div step)]))"



text \<open>
  The loop over the batches, each with its index and, in the chapter-aligned branch, its
  chapter. A batch whose analysis raised gives \<open>None\<close> and is left out of the results;
  the loop goes on to the next batch either way. It ends early when the checkpoint says
  stop, and with an error only if \<open>_analyze_single_batch\<close> raised one.
\<close>

fun batch_loop ::
  "services \<Rightarrow> string \<Rightarrow> dict list \<Rightarrow> int \<Rightarrow> int \<Rightarrow> (nat \<times> string option \<times> int list) list \<Rightarrow>
   dict list \<Rightarrow> worker \<Rightarrow> ((error + dict list) \<times> worker) option" where
  "batch_loop sv tid all_images total_batches context_batch_count [] batch_results w =
     Some (Inr batch_results, w)"
| "batch_loop sv tid all_images total_batches context_batch_count ((batch_idx, ch, page_nums) # rest)
     batch_results w =
     (case check_pause_and_cancel tid w of
        None \<Rightarrow> None
      | Some (go, w1) \<Rightarrow>
          if \<not> go then Some (Inr batch_results, w1)
          else (case analyze_single_batch sv tid all_images page_nums batch_idx total_batches
                       batch_results context_batch_count w1 of
                  (Inl e, w2) \<Rightarrow> Some (Inl e, w2)
                | (Inr None, w2) \<Rightarrow>
                    batch_loop sv tid all_images total_batches context_batch_count rest batch_results w2
                | (Inr (Some result), w2) \<Rightarrow>
                    batch_loop sv tid all_images total_batches context_batch_count rest
                      (if result = [] then batch_results
                       else batch_results @
                            [case ch of None \<Rightarrow> result
                             | Some ch_id \<Rightarrow> dict_set result ''chapter_id'' (JStr ch_id)])
                      w2))"


subsection \<open>The summary layer\<close>

text \<open>\<open>str(n)\<close> and \<open>f"{n:03d}"\<close> for a number that is not negative.\<close>

fun decimal :: "nat \<Rightarrow> string" where
  "decimal n =
     (if n < 10 then [char_of (48 + n)]
      else decimal (n div 10) @ [char_of (48 + n mod 10)])"

definition pad3 :: "nat \<Rightarrow> string" where
  "pad3 n = replicate (3 - length (decimal n)) (CHR ''0'') @ decimal n"

definition segment_name :: "nat \<Rightarrow> nat \<Rightarrow> string" where
  "segment_name layer_idx group_idx = ''layer'' @ decimal layer_idx @ ''_seg_'' @ pad3 group_idx"

text \<open>
  The loop over the groups. \<open>generate_segment_summary\<close> is called with the slice
  \<open>input_results[start:end]\<close>; its result is appended, and if it raises, the error is
  logged and nothing is appended. Progress is notified and the loop goes on either way.
\<close>

fun summary_loop ::
  "services \<Rightarrow> string \<Rightarrow> dict list \<Rightarrow> int \<Rightarrow> nat \<Rightarrow> nat list \<Rightarrow> dict list \<Rightarrow> worker \<Rightarrow>
   (dict list \<times> worker) option" where
  "summary_loop sv tid input_results units_per_group layer_idx [] summary_results w =
     Some (summary_results, w)"
| "summary_loop sv tid input_results units_per_group layer_idx (group_idx # rest) summary_results w =
     (case check_pause_and_cancel tid w of
        None \<Rightarrow> None
      | Some (go, w1) \<Rightarrow>
          if \<not> go then Some (summary_results, w1)
          else (let start = int group_idx * units_per_group;
                    end_idx = min (start + units_per_group) (int (length input_results));
                    group_items = py_slice input_results start end_idx;
                    segment_id = segment_name layer_idx group_idx;
                    w2 = w1\<lparr>trace := trace w1 @ [SegmentCall segment_id group_items]\<rparr>
                in case generate_segment_summary sv segment_id group_items True (wld w2) of
                     (Inr result, st') \<Rightarrow>
                       summary_loop sv tid input_results units_per_group layer_idx rest
                         (summary_results @ [result])
                         (notify_progress tid (w2\<lparr>wld := st'\<rparr>))
                   | (Inl e, st') \<Rightarrow>
                       summary_loop sv tid input_results units_per_group layer_idx rest
                         summary_results
                         (notify_progress tid
                            (w2\<lparr>wld := st', trace := trace w2 @ [SegmentFailed segment_id e]\<rparr>))))"


subsection \<open>The end of a worker\<close>

text \<open>
  How the body of \<open>_execute_task\<close> ended: it returned, it raised an \<open>Exception\<close>, or
  it raised \<open>asyncio.CancelledError\<close>.
\<close>

datatype body_end = Returned | Raised error | CancelledError

text \<open>
  The rest of \<open>_execute_task\<close>, at time \<open>t\<close>: after a body that returned, the task
  is \<open>Cancelled\<close> if its cancel flag is up and \<open>Completed\<close> otherwise; after an error
  it is \<open>Failed\<close>. The thread leaves \<open>running_tasks\<close>.
\<close>

definition end_task :: "nat \<Rightarrow> string \<Rightarrow> body_end \<Rightarrow> manager \<Rightarrow> manager" where
  "end_task t tid how m =
     (let m1 =
        (case how of
           Returned \<Rightarrow>
             if cancel_flagged m tid
             then update_task tid (\<lambda>k. k\<lparr>status := Cancelled\<rparr>) m
             else update_task tid (\<lambda>k. k\<lparr>status := Completed, completed_at := Some t\<rparr>) m
         | CancelledError \<Rightarrow> update_task tid (\<lambda>k. k\<lparr>status := Cancelled\<rparr>) m
         | Raised e \<Rightarrow> update_task tid (\<lambda>k. k\<lparr>status := Failed, error_message := Some e\<rparr>) m)
      in m1\<lparr>running_tasks := AList.delete tid (running_tasks m1)\<rparr>)"

text \<open>
  What can happen to the manager after a point in time: a call of the controller, or the
  end of the worker of a task.
\<close>

datatype step = Call ctl | Ends string nat body_end


section \<open>The chapter path (analyzer.py, analyze_chapter_with_segments)\<close>

text \<open>
  \<open>analyze_chapter_with_segments\<close> runs the same two kinds of layer inside the
  analyzer, for the pages of one chapter, without checkpoints and without a
  \<open>try\<close>: an error of a batch or of a group ends the run. Its two loops are modelled
  here (the chapter lookup, the progress callback and the closing chapter summary are
  not); the calls they make are recorded in a trace, with the events of the worker.

  The pages of the chapter, with their page numbers:
  \<open>[(idx + 1, img) for idx, img in enumerate(all_images) if img.get("chapter_id") == chapter_id]\<close>.
\<close>

definition chapter_images_of :: "dict list \<Rightarrow> string \<Rightarrow> (int \<times> dict) list" where
  "chapter_images_of all_images chapter_id =
     filter (\<lambda>p. dict_get (snd p) ''chapter_id'' = JStr chapter_id)
       (map (\<lambda>p. (int (fst p) + 1, snd p)) (enumerate 0 all_images))"

text \<open>
  The first loop: each batch is analysed with \<open>force=False\<close> and with the last
  results not flagged \<open>parse_error\<close> as context; every result is appended.
\<close>

fun chapter_batch_loop ::
  "services \<Rightarrow> int \<Rightarrow> (int \<times> dict) list list \<Rightarrow> dict list \<Rightarrow> world \<times> event list \<Rightarrow>
   (error + dict list) \<times> (world \<times> event list)" where
  "chapter_batch_loop sv context_batch_count [] batch_results w = (Inr batch_results, w)"
| "chapter_batch_loop sv context_batch_count (batch_pages # rest) batch_results w =
     (let page_nums = map fst batch_pages;
          image_infos = map snd batch_pages;
          previous_results = previous_results_for context_batch_count batch_results;
          tr = snd w @ [BatchCall page_nums previous_results]
      in case analyze_batch sv page_nums None (Some (map Some image_infos)) False
                (Some previous_results) (fst w) of
           (Inl e, st') \<Rightarrow> (Inl e, (st', tr))
         | (Inr batch_result, st') \<Rightarrow>
             chapter_batch_loop sv context_batch_count rest (batch_results @ [batch_result]) (st', tr))"

definition chapter_batch_layer ::
  "services \<Rightarrow> int \<Rightarrow> int \<Rightarrow> (int \<times> dict) list \<Rightarrow> world \<times> event list \<Rightarrow>
   (error + dict list) \<times> (world \<times> event list)" where
  "chapter_batch_layer sv pages_per_batch context_batch_count chapter_images w =
     (if pages_per_batch = 0 then (Inl ZeroDivisionError, w)
      else (case range_step (length chapter_images) pages_per_batch of
              Inl e \<Rightarrow> (Inl e, w)
            | Inr starts \<Rightarrow>
                chapter_batch_loop sv context_batch_count
                  (map (\<lambda>i. py_slice chapter_images i (i + pages_per_batch)) starts) [] w))"

text \<open>
  One pass of the loop over the middle layers: \<open>units_per_group \<le> 0\<close> stands for
  \<open>max(len(current_results), 1)\<close>, a layer without input is skipped, and each group
  \<open>current_results[start:end]\<close> is summarised with \<open>force=False\<close>.
\<close>

definition chapter_segment_name :: "string \<Rightarrow> nat \<Rightarrow> nat \<Rightarrow> string" where
  "chapter_segment_name chapter_id layer_idx group_idx =
     chapter_id @ ''_L'' @ decimal layer_idx @ ''_'' @ pad3 group_idx"

fun chapter_group_loop ::
  "services \<Rightarrow> string \<Rightarrow> nat \<Rightarrow> dict list \<Rightarrow> int \<Rightarrow> nat list \<Rightarrow> dict list \<Rightarrow> world \<times> event list \<Rightarrow>
   (error + dict list) \<times> (world \<times> event list)" where
  "chapter_group_loop sv chapter_id layer_idx current_results units_per_group [] segment_results w =
     (Inr segment_results, w)"
| "chapter_group_loop sv chapter_id layer_idx current_results units_per_group (group_idx # rest)
     segment_results w =
     (let start = int group_idx * units_per_group;
          end_idx = min (start + units_per_group) (int (length current_results));
          group_items = py_slice current_results start end_idx;
          segment_id = chapter_segment_name chapter_id layer_idx group_idx;
          tr = snd w @ [SegmentCall segment_id group_items]
      in case generate_segment_summary sv segment_id group_items False (fst w) of
           (Inl e, st') \<Rightarrow> (Inl e, (st', tr))
         | (Inr segment_result, st') \<Rightarrow>
             chapter_group_loop sv chapter_id layer_idx current_results units_per_group rest
               (segment_results @ [segment_result]) (st', tr))"

definition chapter_summary_layer ::
  "services \<Rightarrow> string \<Rightarrow> nat \<Rightarrow> int \<Rightarrow> dict list \<Rightarrow> world \<times> event list \<Rightarrow>
   (error + dict list) \<times> (world \<times> event list)" where
  "chapter_summary_layer sv chapter_id layer_idx units_per_group current_results w =
     (let units = (if units_per_group \<le> 0 then max (int (length current_results)) 1
                   else units_per_group)
      in if current_results = [] then (Inr current_results, w)
         else (let total_groups = (int (length current_results) + units - 1) div units
               in chapter_group_loop sv chapter_id layer_idx current_results units
                    [0..<nat total_groups] [] w))"

section \<open>Example values\<close>

text \<open>
  Collaborators for the example runs: a Content Analysis Client that fails on the batch
  that starts at page 6 and answers every other batch, a text-generation client that is
  unreachable, and image files that exist except for one.
\<close>

definition demo_services :: services where
  "demo_services =
     \<lparr>now_iso = (\<lambda>n. ''t'' @ decimal n),
      file_bytes = (\<lambda>p. if p = JStr ''missing.png'' then None else Some ''image''),
      vlm_client = (\<lambda>n imgs start_page ctx.
         if start_page = 6 then Inl (ClientError ''timeout'')
         else Inr [(''batch_summary'', JStr ''plot''), (''key_events'', JList [JStr ''event''])]),
      llm_client = (\<lambda>n prompt. Inl (ClientError ''unreachable'')),
      format_previous_results = (\<lambda>results. ''previous''),
      format_batch_line = (\<lambda>batch_start batch_end summary. ''line''),
      segment_prompt = (\<lambda>batch_count s e summaries segment_id. ''prompt''),
      parse_response = (\<lambda>response. None),
      update_from_sequence = (\<lambda>d other. (Some TypeError, d))\<rparr>"

definition empty_world :: world where
  "empty_world = \<lparr>batches = [], page_files = [], segments = [], ticks = 0, vlm_calls = [],
                   llm_calls = [], warnings = []\<rparr>"

text \<open>
  Managers reached through the controller: one task that ran to completion; two tasks of
  one book, the first of them running; one running task.
\<close>

definition finished_manager :: manager where
  "finished_manager =
     end_task 2 ''task-1'' Returned
       (snd (start_task 1 ''task-1''
          (snd (create_task ''task-1'' 0 ''book'' FullBook None None False new_manager))))"

definition two_task_manager :: manager where
  "two_task_manager =
     snd (start_task 2 ''task-1''
       (snd (create_task ''task-2'' 1 ''book'' Chapter None None False
          (snd (create_task ''task-1'' 0 ''book'' FullBook None None False new_manager)))))"

definition running_manager :: manager where
  "running_manager =
     snd (start_task 1 ''task-1''
       (snd (create_task ''task-1'' 0 ''book'' FullBook None None False new_manager)))"

text \<open>
  A worker of the running task that no controller call disturbs, on an empty store; a
  book of twelve pages; a batch result as the example client gives it, once saved; and a
  batch result whose \<open>page_range\<close> is \<open>null\<close>.
\<close>

definition calm_worker :: worker where
  "calm_worker = \<lparr>mgr = running_manager, wld = empty_world, pending = [], trace = []\<rparr>"


definition demo_images :: "dict list" where
  "demo_images = replicate 12 [(''path'', JStr ''page.png'')]"


section \<open>Invariants\<close>

text \<open>The status of a task, if the manager has the task.\<close>

definition status_of :: "manager \<Rightarrow> string \<Rightarrow> task_status option" where
  "status_of m tid = map_option status (map_of (tasks m) tid)"

text \<open>
  Every task of the manager carries the identifier it is filed under and is listed
  under its book, as \<open>create_task\<close> files it.
\<close>

definition listed_for :: "manager \<Rightarrow> string \<Rightarrow> string list" where
  "listed_for m book = (case map_of (book_tasks m) book of None \<Rightarrow> [] | Some tids \<Rightarrow> tids)"

definition registered :: "manager \<Rightarrow> bool" where
  "registered m =
     list_all (\<lambda>entry. task_id (snd entry) = fst entry \<and>
                        fst entry \<in> set (listed_for m (book_id (snd entry))))
       (tasks m)"



text \<open>
  Every stored batch record carries the page range of the key it is stored under.
\<close>

definition ranges_match :: "world \<Rightarrow> bool" where
  "ranges_match st =
     list_all (\<lambda>kd. dict_get (snd kd) ''page_range'' = page_range_of (fst (fst kd)) (snd (fst kd)))
       (batches st)"

section \<open>Reading a run\<close>

text \<open>A result that is not flagged \<open>parse_error\<close>.\<close>

definition unflagged :: "dict \<Rightarrow> bool" where
  "unflagged r = (\<not> truthy (dict_get r ''parse_error''))"

text \<open>
  The calls and the failures that a trace records: the \<open>analyze_batch\<close> calls with
  their page numbers and prior results, the page lists of the batches that failed, the
  \<open>generate_segment_summary\<close> calls with their identifier and group, and the
  identifiers of the groups that failed with the error.
\<close>

definition batch_calls :: "event list \<Rightarrow> (int list \<times> dict list) list" where
  "batch_calls tr =
     List.map_filter (\<lambda>ev. case ev of BatchCall page_nums prev \<Rightarrow> Some (page_nums, prev) | _ \<Rightarrow> None) tr"

definition batch_failures :: "event list \<Rightarrow> int list list" where
  "batch_failures tr =
     List.map_filter (\<lambda>ev. case ev of BatchFailed page_nums e \<Rightarrow> Some page_nums | _ \<Rightarrow> None) tr"

definition segment_calls :: "event list \<Rightarrow> (string \<times> dict list) list" where
  "segment_calls tr =
     List.map_filter (\<lambda>ev. case ev of SegmentCall sid grp \<Rightarrow> Some (sid, grp) | _ \<Rightarrow> None) tr"

definition segment_failures :: "event list \<Rightarrow> (string \<times> error) list" where
  "segment_failures tr =
     List.map_filter (\<lambda>ev. case ev of SegmentFailed sid e \<Rightarrow> Some (sid, e) | _ \<Rightarrow> None) tr"

text \<open>
  A worker is undisturbed when no controller call is still to come and its task is
  neither cancelled nor paused: then every checkpoint says go on.
\<close>

definition calm :: "string \<Rightarrow> worker \<Rightarrow> bool" where
  "calm tid w = (pending w = [] \<and> \<not> cancel_flagged (mgr w) tid \<and> \<not> event_cleared (mgr w) tid)"

text \<open>
  The group \<open>input_results[start:end]\<close> of the summary layer for a group index.
\<close>

abbreviation group_of :: "dict list \<Rightarrow> int \<Rightarrow> nat \<Rightarrow> dict list" where
  "group_of xs u g \<equiv> py_slice xs (int g * u) (min (int g * u + u) (int (length xs)))"

text \<open>The failed-pages list of a task; a batch of pages of the book; pages of the book.\<close>

definition failed_pages_of :: "manager \<Rightarrow> string \<Rightarrow> int list" where
  "failed_pages_of m tid = (case map_of (tasks m) tid of None \<Rightarrow> [] | Some k \<Rightarrow> failed_pages k)"

definition valid_batch :: "dict list \<Rightarrow> int list \<Rightarrow> bool" where
  "valid_batch all_images page_nums =
     (page_nums \<noteq> [] \<and> list_all (\<lambda>p. 1 \<le> p \<and> p \<le> int (length all_images)) page_nums)"


section \<open>Properties of the analyzer and the store\<close>

lemma py_min_Cons: "py_min (x # xs) = Min (set (x # xs))"
  unfolding py_min_def by (simp only: Min.set_eq_fold list.sel)

lemma py_max_Cons: "py_max (x # xs) = Max (set (x # xs))"
  unfolding py_max_def by (simp only: Max.set_eq_fold list.sel)

lemma py_min_Min: "xs \<noteq> [] \<Longrightarrow> py_min xs = Min (set xs)"
  by (cases xs, simp, simp only: py_min_Cons)

lemma py_max_Max: "xs \<noteq> [] \<Longrightarrow> py_max xs = Max (set xs)"
  by (cases xs, simp, simp only: py_max_Cons)

text \<open>
  Claim C9. \<open>analyze_batch\<close> called with an empty list of page numbers returns the
  empty dict at once: the store is the one it was given, so nothing was read into the
  result, no file was written and the call record of the Content Analysis Client has not
  grown.
\<close>

theorem analyze_batch_empty:
  "analyze_batch sv [] images image_infos force previous_results st = (Inr [], st)"
  by (simp add: analyze_batch_def)

text \<open>
  A record stored where every record carries the page range of its key has fields.
\<close>

lemma ranges_match_nonempty:
  assumes "ranges_match st" and "map_of (batches st) key = Some cached"
  shows "cached \<noteq> []"
proof -
  from assms(2) have "(key, cached) \<in> set (batches st)" by (rule map_of_SomeD)
  with assms(1) have "dict_get cached ''page_range'' = page_range_of (fst key) (snd key)"
    by (auto simp: ranges_match_def list_all_iff)
  then show ?thesis by (auto simp: dict_get_def page_range_of_def)
qed

text \<open>
  Claim C1. A call \<open>analyze_batch(page_nums, force=False)\<close> on a non-empty page list,
  with a record stored for the range from the least to the greatest page that is not
  flagged \<open>parse_error\<close>, returns that record and leaves the world as it was: no file
  is written and the Content Analysis Client is not called (its call record has not
  grown). A record is a JSON object with fields, as every record that
  \<open>save_batch_analysis\<close> writes is (\<open>ranges_match_nonempty\<close>); the empty object
  is what \<open>load_batch_analysis\<close> returns for a missing file.
\<close>

theorem analyze_batch_cached:
  assumes "page_nums \<noteq> []"
    and "map_of (batches st) (Min (set page_nums), Max (set page_nums)) = Some cached"
    and "cached \<noteq> []"
    and "\<not> truthy (dict_get cached ''parse_error'')"
  shows "analyze_batch sv page_nums images image_infos False previous_results st = (Inr cached, st)"
  using assms
  by (simp add: analyze_batch_def load_batch_analysis_def py_min_Min py_max_Max)

theorem analyze_batch_cached_witness:
  "analyze_batch demo_services [1, 2, 3, 4, 5] None None False None
     (empty_world\<lparr>batches := [((1, 5), [(''batch_summary'', JStr ''plot'')])]\<rparr>)
   = (Inr [(''batch_summary'', JStr ''plot'')],
      empty_world\<lparr>batches := [((1, 5), [(''batch_summary'', JStr ''plot'')])]\<rparr>)"
  by (rule analyze_batch_cached) (simp_all add: empty_world_def dict_get_def)

lemma list_all_update:
  "list_all P al \<Longrightarrow> P (k, v) \<Longrightarrow> list_all P (AList.update k v al)"
  by (induction al) auto



section \<open>Properties of the controller\<close>

lemmas manager_defs = start_task_def create_task_def new_task_def new_manager_def end_task_def
  update_task_def other_running_def cancel_flagged_def pause_task_def resume_task_def
  cancel_task_def event_cleared_def

lemma map_of_map_entry_same:
  "map_of (AList.map_entry k f al) k = map_option f (map_of al k)"
  by (simp add: map_of_map_entry split: option.splits)

lemma map_of_map_entry_other:
  "k' \<noteq> k \<Longrightarrow> map_of (AList.map_entry k f al) k' = map_of al k'"
  by (simp add: map_of_map_entry)

lemma listed_for_update_task [simp]: "listed_for (update_task tid f m) book = listed_for m book"
  by (simp add: listed_for_def update_task_def)

lemma other_running_listed:
  "other_running m book tid =
     (\<exists>tid' \<in> set (listed_for m book). \<exists>other. map_of (tasks m) tid' = Some other \<and>
        task_id other \<noteq> tid \<and> status other = Running)"
proof -
  have "other_running m book tid =
      list_ex (\<lambda>tid'. case map_of (tasks m) tid' of None \<Rightarrow> False
                 | Some other_task \<Rightarrow> task_id other_task \<noteq> tid \<and> status other_task = Running)
        (listed_for m book)"
    by (simp add: other_running_def listed_for_def)
  then show ?thesis
    by (auto simp: list_ex_iff split: option.splits)
qed

lemma registered_other_running:
  assumes "registered m"
    and "map_of (tasks m) tid' = Some other"
    and "tid' \<noteq> tid"
    and "status other = Running"
  shows "other_running m (book_id other) tid"
proof -
  from assms(2) have "(tid', other) \<in> set (tasks m)" by (rule map_of_SomeD)
  with assms(1) have "task_id other = tid'" and "tid' \<in> set (listed_for m (book_id other))"
    by (auto simp: registered_def list_all_iff)
  with assms(2-4) show ?thesis
    unfolding other_running_listed by blast
qed

lemma list_all_map_entry:
  "list_all P al \<Longrightarrow> (\<And>v. P (k, v) \<Longrightarrow> P (k, f v)) \<Longrightarrow> list_all P (AList.map_entry k f al)"
  by (induction al) auto

lemma tasks_update_task: "tasks (update_task tid f m) = AList.map_entry tid f (tasks m)"
  by (simp add: update_task_def)

text \<open>
  The registry invariant holds of the new manager and is kept by \<open>create_task\<close>, by
  every call of the controller and by the end of every worker.
\<close>

lemma registered_new_manager: "registered new_manager"
  by (simp add: registered_def new_manager_def)

lemma registered_update_task:
  assumes "registered m"
    and "\<And>k. task_id (f k) = task_id k"
    and "\<And>k. book_id (f k) = book_id k"
  shows "registered (update_task tid f m)"
proof -
  have "list_all (\<lambda>entry. task_id (snd entry) = fst entry \<and>
                        fst entry \<in> set (listed_for m (book_id (snd entry))))
          (AList.map_entry tid f (tasks m))"
    using assms(1) unfolding registered_def
    by (rule list_all_map_entry) (simp add: assms(2,3))
  then show ?thesis
    by (simp add: registered_def tasks_update_task)
qed

lemma registered_fields [simp]:
  "registered (m\<lparr>running_tasks := r\<rparr>) = registered m"
  "registered (m\<lparr>pause_events := p\<rparr>) = registered m"
  "registered (m\<lparr>cancel_flags := c\<rparr>) = registered m"
  "registered (m\<lparr>threads := n\<rparr>) = registered m"
  by (simp_all add: registered_def listed_for_def)

lemma registered_create_task:
  assumes "registered m"
  shows "registered (snd (create_task new_id t book ty chapters pages incremental m))"
proof -
  let ?m' = "snd (create_task new_id t book ty chapters pages incremental m)"
  have l: "set (listed_for m b) \<subseteq> set (listed_for ?m' b)" for b
    by (auto simp: create_task_def listed_for_def Let_def update_conv' split: option.splits)
  have n: "new_id \<in> set (listed_for ?m' book)"
    by (simp add: create_task_def listed_for_def Let_def update_conv')
  have "list_all (\<lambda>entry. task_id (snd entry) = fst entry \<and>
           fst entry \<in> set (listed_for ?m' (book_id (snd entry)))) (tasks m)"
    using assms l by (auto simp: registered_def list_all_iff)
  then have "list_all (\<lambda>entry. task_id (snd entry) = fst entry \<and>
           fst entry \<in> set (listed_for ?m' (book_id (snd entry))))
        (AList.update new_id (new_task new_id t book ty chapters pages incremental) (tasks m))"
    using n by (intro list_all_update) (simp_all add: new_task_def)
  then show ?thesis
    by (simp add: registered_def create_task_def Let_def listed_for_def)
qed

lemma registered_apply_ctl: "registered m \<Longrightarrow> registered (apply_ctl c m)"
  by (cases c)
     (auto simp: start_task_def pause_task_def resume_task_def cancel_task_def Let_def
        split: option.splits intro!: registered_update_task)

lemma registered_end_task: "registered m \<Longrightarrow> registered (end_task t tid how m)"
  by (cases how) (auto simp: end_task_def Let_def intro!: registered_update_task)

text \<open>
  Claim C7. \<open>start_task(task_id)\<close> returns \<open>False\<close> whenever the task is already
  \<open>Running\<close> or another task of the same book is \<open>Running\<close>; the manager is
  then the one it was: the status is unchanged and no thread was started. The tasks are
  those filed by \<open>create_task\<close> (the registry invariant), and the scan of
  \<open>start_task\<close> over the book's list then finds every other task of the book.
\<close>

theorem start_task_rejected:
  assumes "registered m"
    and "map_of (tasks m) tid = Some task"
    and "status task = Running \<or>
         (\<exists>tid' other. tid' \<noteq> tid \<and> map_of (tasks m) tid' = Some other \<and>
            book_id other = book_id task \<and> status other = Running)"
  shows "start_task t tid m = (False, m)"
proof (cases "status task = Running")
  case True
  with assms(2) show ?thesis by (simp add: start_task_def)
next
  case False
  with assms(3) obtain tid' other where o: "tid' \<noteq> tid" "map_of (tasks m) tid' = Some other"
    "book_id other = book_id task" "status other = Running"
    by blast
  from registered_other_running [OF assms(1) o(2) o(1) o(4)] o(3)
  have "other_running m (book_id task) tid" by simp
  with assms(2) False show ?thesis by (simp add: start_task_def)
qed

theorem start_task_rejected_witness:
  "registered two_task_manager \<and>
   status_of two_task_manager ''task-1'' = Some Running \<and>
   status_of two_task_manager ''task-2'' = Some Pending \<and>
   start_task 3 ''task-1'' two_task_manager = (False, two_task_manager) \<and>
   start_task 3 ''task-2'' two_task_manager = (False, two_task_manager)"
proof -
  have r: "registered two_task_manager"
    by (simp add: two_task_manager_def registered_def listed_for_def manager_defs Let_def)
  have t1: "map_of (tasks two_task_manager) ''task-1''
      = Some ((new_task ''task-1'' 0 ''book'' FullBook None None False)
               \<lparr>status := Running, started_at := Some 2\<rparr>)"
    by (simp add: two_task_manager_def manager_defs Let_def)
  have t2: "map_of (tasks two_task_manager) ''task-2''
      = Some (new_task ''task-2'' 1 ''book'' Chapter None None False)"
    by (simp add: two_task_manager_def manager_defs Let_def)
  have a: "start_task 3 ''task-1'' two_task_manager = (False, two_task_manager)"
    by (rule start_task_rejected [OF r t1]) (simp add: new_task_def)
  have b: "start_task 3 ''task-2'' two_task_manager = (False, two_task_manager)"
    by (rule start_task_rejected [OF r t2], rule disjI2, rule exI [of _ "''task-1''"],
        simp add: t1 new_task_def)
  from r t1 t2 a b show ?thesis by (simp add: status_of_def new_task_def)
qed

text \<open>
  Claim C3, as stated, fails: a \<open>Completed\<close> task is started again by
  \<open>start_task\<close>, which refuses only a task that is \<open>Running\<close> or whose book has
  another running task. Its status becomes \<open>Running\<close> and a thread is started.
\<close>

theorem terminal_task_restarted:
  "status_of finished_manager ''task-1'' = Some Completed \<and>
   fst (start_task 3 ''task-1'' finished_manager) = True \<and>
   status_of (snd (start_task 3 ''task-1'' finished_manager)) ''task-1'' = Some Running \<and>
   threads (snd (start_task 3 ''task-1'' finished_manager)) = Suc (threads finished_manager)"
  by (simp add: finished_manager_def status_of_def start_task_def create_task_def new_task_def
      new_manager_def end_task_def update_task_def other_running_def cancel_flagged_def Let_def)

text \<open>
  Claim C3, amended. For a task that is \<open>Cancelled\<close>, \<open>Completed\<close> or
  \<open>Failed\<close>, the calls \<open>pause_task\<close>, \<open>resume_task\<close> and \<open>cancel_task\<close>
  return \<open>False\<close> and leave the manager as it was. \<open>start_task\<close> does so only
  when another task of the book is running; otherwise it returns \<open>True\<close>, sets the
  status to \<open>Running\<close> with the start time, and starts a thread.
\<close>

theorem terminal_task_operations:
  assumes "map_of (tasks m) tid = Some task"
    and "status task \<in> {Cancelled, Completed, Failed}"
  shows "pause_task tid m = (Inr False, m) \<and>
         resume_task tid m = (Inr False, m) \<and>
         cancel_task tid m = (False, m) \<and>
         (other_running m (book_id task) tid \<longrightarrow> start_task t tid m = (False, m)) \<and>
         (\<not> other_running m (book_id task) tid \<longrightarrow>
            fst (start_task t tid m) = True \<and>
            map_of (tasks (snd (start_task t tid m))) tid
              = Some (task\<lparr>status := Running, started_at := Some t\<rparr>) \<and>
            threads (snd (start_task t tid m)) = Suc (threads m))"
  using assms
  by (auto simp: pause_task_def resume_task_def cancel_task_def start_task_def update_task_def
      map_of_map_entry_same Let_def)

theorem terminal_task_operations_witness:
  "pause_task ''task-1'' finished_manager = (Inr False, finished_manager) \<and>
   resume_task ''task-1'' finished_manager = (Inr False, finished_manager) \<and>
   cancel_task ''task-1'' finished_manager = (False, finished_manager) \<and>
   \<not> other_running finished_manager ''book'' ''task-1'' \<and>
   fst (start_task 3 ''task-1'' finished_manager) = True \<and>
   threads (snd (start_task 3 ''task-1'' finished_manager)) = Suc (threads finished_manager)"
proof -
  have a: "map_of (tasks finished_manager) ''task-1''
      = Some ((new_task ''task-1'' 0 ''book'' FullBook None None False)
               \<lparr>status := Completed, started_at := Some 1, completed_at := Some 2\<rparr>)"
    by (simp add: finished_manager_def start_task_def create_task_def new_task_def
      new_manager_def end_task_def update_task_def other_running_def cancel_flagged_def Let_def)
  have b: "\<not> other_running finished_manager ''book'' ''task-1''"
    by (simp add: finished_manager_def start_task_def create_task_def new_task_def
      new_manager_def end_task_def update_task_def other_running_def cancel_flagged_def Let_def)
  show ?thesis
    using terminal_task_operations [OF a, of 3] b by (simp add: new_task_def)
qed

subsection \<open>Pause, then cancel\<close>


lemma status_of_fields [simp]:
  "status_of (m\<lparr>running_tasks := r\<rparr>) tid = status_of m tid"
  "status_of (m\<lparr>pause_events := p\<rparr>) tid = status_of m tid"
  "status_of (m\<lparr>cancel_flags := c\<rparr>) tid = status_of m tid"
  "status_of (m\<lparr>threads := n\<rparr>) tid = status_of m tid"
  by (simp_all add: status_of_def)















section \<open>Properties of the worker\<close>

subsection \<open>Traces and undisturbed runs\<close>

lemma batch_calls_simps [simp]:
  "batch_calls [] = []"
  "batch_calls (tr @ tr') = batch_calls tr @ batch_calls tr'"
  "batch_calls (BatchCall pn prev # tr) = (pn, prev) # batch_calls tr"
  "batch_calls (BatchFailed pn e # tr) = batch_calls tr"
  "batch_calls (SegmentCall sid g # tr) = batch_calls tr"
  "batch_calls (SegmentFailed sid e # tr) = batch_calls tr"
  "batch_calls (Notified p # tr) = batch_calls tr"
  by (simp_all add: batch_calls_def map_filter_def)

lemma batch_failures_simps [simp]:
  "batch_failures [] = []"
  "batch_failures (tr @ tr') = batch_failures tr @ batch_failures tr'"
  "batch_failures (BatchCall pn prev # tr) = batch_failures tr"
  "batch_failures (BatchFailed pn e # tr) = pn # batch_failures tr"
  "batch_failures (SegmentCall sid g # tr) = batch_failures tr"
  "batch_failures (SegmentFailed sid e # tr) = batch_failures tr"
  "batch_failures (Notified p # tr) = batch_failures tr"
  by (simp_all add: batch_failures_def map_filter_def)

lemma segment_calls_simps [simp]:
  "segment_calls [] = []"
  "segment_calls (tr @ tr') = segment_calls tr @ segment_calls tr'"
  "segment_calls (BatchCall pn prev # tr) = segment_calls tr"
  "segment_calls (BatchFailed pn e # tr) = segment_calls tr"
  "segment_calls (SegmentCall sid g # tr) = (sid, g) # segment_calls tr"
  "segment_calls (SegmentFailed sid e # tr) = segment_calls tr"
  "segment_calls (Notified p # tr) = segment_calls tr"
  by (simp_all add: segment_calls_def map_filter_def)

lemma segment_failures_simps [simp]:
  "segment_failures [] = []"
  "segment_failures (tr @ tr') = segment_failures tr @ segment_failures tr'"
  "segment_failures (BatchCall pn prev # tr) = segment_failures tr"
  "segment_failures (BatchFailed pn e # tr) = segment_failures tr"
  "segment_failures (SegmentCall sid g # tr) = segment_failures tr"
  "segment_failures (SegmentFailed sid e # tr) = (sid, e) # segment_failures tr"
  "segment_failures (Notified p # tr) = segment_failures tr"
  by (simp_all add: segment_failures_def map_filter_def)

lemma trace_notify_progress:
  "trace (notify_progress tid w) = trace w \<or> (\<exists>p. trace (notify_progress tid w) = trace w @ [Notified p])"
  by (simp add: notify_progress_def split: option.splits)

lemma batch_calls_notify [simp]: "batch_calls (trace (notify_progress tid w)) = batch_calls (trace w)"
  using trace_notify_progress [of tid w] by auto

lemma batch_failures_notify [simp]:
  "batch_failures (trace (notify_progress tid w)) = batch_failures (trace w)"
  using trace_notify_progress [of tid w] by auto

lemma trace_write_task [simp]: "trace (write_task tid f w) = trace w"
  by (simp add: write_task_def)

lemma segment_calls_notify [simp]:
  "segment_calls (trace (notify_progress tid w)) = segment_calls (trace w)"
  using trace_notify_progress [of tid w] by auto

lemma segment_failures_notify [simp]:
  "segment_failures (trace (notify_progress tid w)) = segment_failures (trace w)"
  using trace_notify_progress [of tid w] by auto

lemma check_calm: "calm tid w \<Longrightarrow> check_pause_and_cancel tid w = Some (True, w)"
  by (simp add: calm_def check_pause_and_cancel_def arrive_def)

lemma calm_fields [simp]:
  "calm tid (w\<lparr>wld := st\<rparr>) = calm tid w"
  "calm tid (w\<lparr>trace := tr\<rparr>) = calm tid w"
  "calm tid (notify_progress tid' w) = calm tid w"
  "calm tid (write_task tid' f w) = calm tid w"
  by (simp_all add: calm_def notify_progress_def write_task_def update_task_def cancel_flagged_def
      event_cleared_def split: option.splits)

lemma wld_fields [simp]:
  "wld (notify_progress tid w) = wld w"
  "wld (write_task tid f w) = wld w"
  by (simp_all add: notify_progress_def write_task_def split: option.splits)

lemma calm_calm_worker: "calm ''task-1'' calm_worker"
  by (simp add: calm_def calm_worker_def running_manager_def manager_defs Let_def)

lemma calm_worker_task:
  "map_of (tasks (mgr calm_worker)) ''task-1''
     = Some ((new_task ''task-1'' 0 ''book'' FullBook None None False)
              \<lparr>status := Running, started_at := Some 1\<rparr>)"
  by (simp add: calm_worker_def running_manager_def manager_defs Let_def)

subsection \<open>The context window\<close>

lemma previous_results_for_window:
  "0 < k \<Longrightarrow> previous_results_for k rs =
     drop (length (filter unflagged rs) - nat k) (filter unflagged rs)"
proof -
  assume k: "0 < k"
  have "slice_index n (- k) = n - nat k" for n
    using k by (simp add: slice_index_def)
  then show ?thesis
    using k by (simp add: previous_results_for_def py_slice_from_def unflagged_def [abs_def])
qed

lemma previous_results_for_length: "0 < k \<Longrightarrow> length (previous_results_for k rs) \<le> nat k"
  by (simp add: previous_results_for_window)

lemma previous_results_for_unflagged:
  "r \<in> set (previous_results_for k rs) \<Longrightarrow> unflagged r"
  by (auto simp: previous_results_for_def py_slice_from_def unflagged_def split: if_splits
      dest: in_set_dropD)



lemma trace_check_pause_and_cancel:
  "check_pause_and_cancel tid w = Some (go, w1) \<Longrightarrow> trace w1 = trace w \<and> wld w1 = wld w"
  by (auto simp: check_pause_and_cancel_def arrive_def Let_def split: list.splits if_splits option.splits)


subsection \<open>Undisturbed batch layers\<close>

lemma images_for_valid:
  "list_all (\<lambda>p. 1 \<le> p \<and> p \<le> int (length imgs)) pn \<Longrightarrow> \<exists>infos. images_for imgs pn = Inr infos"
  by (induction pn) (auto simp: py_index_def)

lemma task_write_task:
  "map_of (tasks (mgr (write_task tid f w))) tid = map_option f (map_of (tasks (mgr w)) tid)"
  by (simp add: write_task_def update_task_def map_of_map_entry_same)

lemma mgr_fields [simp]:
  "mgr (notify_progress tid w) = mgr w"
  by (simp add: notify_progress_def split: option.splits)

lemma failed_pages_of_write:
  "failed_pages_of (mgr (write_task tid f w)) tid
     = (case map_of (tasks (mgr w)) tid of None \<Rightarrow> [] | Some k \<Rightarrow> failed_pages (f k))"
  by (simp add: failed_pages_of_def task_write_task split: option.splits)

lemma single_batch_raises:
  assumes "images_for imgs pn = Inr infos"
    and "pn \<noteq> []"
    and "analyze_batch sv pn None (Some (map Some infos)) True (Some (previous_results_for k acc)) (wld w)
           = (Inl e, st')"
    and "map_of (tasks (mgr w)) tid = Some task"
  shows "\<exists>w1. analyze_single_batch sv tid imgs pn idx tot acc k w = (Inr None, w1) \<and>
           wld w1 = st' \<and>
           failed_pages_of (mgr w1) tid = failed_pages task @ pn \<and>
           batch_failures (trace w1) = batch_failures (trace w) @ [pn] \<and>
           batch_calls (trace w1) = batch_calls (trace w) @ [(pn, previous_results_for k acc)] \<and>
           (calm tid w \<longrightarrow> calm tid w1)"
proof -
  from assms(2) obtain p ps where pn: "pn = p # ps" by (cases pn) auto
  let ?w1 = "write_task tid (\<lambda>k. k\<lparr>progress := (progress k)\<lparr>current_page := p\<rparr>\<rparr>) w"
  have t1: "map_of (tasks (mgr ?w1)) tid = Some (task\<lparr>progress := (progress task)\<lparr>current_page := p\<rparr>\<rparr>)"
    using assms(4) by (simp add: task_write_task)
  show ?thesis
    using assms(1,3) t1 unfolding pn
    by (simp add: analyze_single_batch_def Let_def failed_pages_of_write del: images_for.simps)
qed

lemma single_batch_valid:
  assumes "valid_batch imgs pn"
    and "map_of (tasks (mgr w)) tid = Some task"
  shows "\<exists>r w1 task1 newf. analyze_single_batch sv tid imgs pn idx tot acc k w = (Inr r, w1) \<and>
           map_of (tasks (mgr w1)) tid = Some task1 \<and>
           batch_failures (trace w1) = batch_failures (trace w) @ newf \<and>
           failed_pages task1 = failed_pages task @ concat newf \<and>
           batch_calls (trace w1) = batch_calls (trace w) @ [(pn, previous_results_for k acc)] \<and>
           (calm tid w \<longrightarrow> calm tid w1)"
proof -
  from assms(1) obtain p ps where pn: "pn = p # ps" by (cases pn) (auto simp: valid_batch_def)
  from assms(1) obtain infos where i: "images_for imgs pn = Inr infos"
    using images_for_valid by (auto simp: valid_batch_def)
  let ?w1 = "write_task tid (\<lambda>k. k\<lparr>progress := (progress k)\<lparr>current_page := p\<rparr>\<rparr>) w"
  have t1: "map_of (tasks (mgr ?w1)) tid = Some (task\<lparr>progress := (progress task)\<lparr>current_page := p\<rparr>\<rparr>)"
    using assms(2) by (simp add: task_write_task)
  obtain r st' where a: "analyze_batch sv pn None (Some (map Some infos)) True
      (Some (previous_results_for k acc)) (wld w) = (r, st')"
    by (cases "analyze_batch sv pn None (Some (map Some infos)) True
      (Some (previous_results_for k acc)) (wld w)")
  show ?thesis
  proof (cases r)
    case (Inl e)
    with a i assms(2) show ?thesis unfolding pn
      by (simp add: analyze_single_batch_def Let_def task_write_task del: images_for.simps)
  next
    case (Inr res)
    with a i assms(2) show ?thesis unfolding pn
      by (simp add: analyze_single_batch_def Let_def task_write_task del: images_for.simps)
  qed
qed

lemma batch_loop_calm:
  assumes "calm tid w"
    and "map_of (tasks (mgr w)) tid = Some task"
    and "list_all (\<lambda>b. valid_batch imgs (snd (snd b))) bs"
  shows "\<exists>rs w' task' newf. batch_loop sv tid imgs tot k bs acc w = Some (Inr rs, w') \<and>
           calm tid w' \<and>
           map_of (tasks (mgr w')) tid = Some task' \<and>
           map fst (batch_calls (trace w')) = map fst (batch_calls (trace w)) @ map (\<lambda>b. snd (snd b)) bs \<and>
           batch_failures (trace w') = batch_failures (trace w) @ newf \<and>
           failed_pages task' = failed_pages task @ concat newf"
  using assms
proof (induction bs arbitrary: acc w task)
  case Nil
  then show ?case by simp
next
  case (Cons b bs)
  obtain idx ch pn where b: "b = (idx, ch, pn)" by (cases b)
  from Cons.prems(3) b have v: "valid_batch imgs pn" and vs: "list_all (\<lambda>b. valid_batch imgs (snd (snd b))) bs"
    by simp_all
  from single_batch_valid [OF v Cons.prems(2), of sv idx tot acc k] Cons.prems(1)
  obtain r w1 task1 newf where
    s: "analyze_single_batch sv tid imgs pn idx tot acc k w = (Inr r, w1)" and
    t: "map_of (tasks (mgr w1)) tid = Some task1" and
    f: "batch_failures (trace w1) = batch_failures (trace w) @ newf"
       "failed_pages task1 = failed_pages task @ concat newf" and
    c: "batch_calls (trace w1) = batch_calls (trace w) @ [(pn, previous_results_for k acc)]" and
    calm1: "calm tid w1"
    by blast
  define acc' where "acc' =
    (case r of None \<Rightarrow> acc
     | Some result \<Rightarrow> if result = [] then acc
         else acc @ [case ch of None \<Rightarrow> result | Some ch_id \<Rightarrow> dict_set result ''chapter_id'' (JStr ch_id)])"
  have step: "batch_loop sv tid imgs tot k (b # bs) acc w = batch_loop sv tid imgs tot k bs acc' w1"
    using Cons.prems(1) s by (simp add: b check_calm acc'_def split: option.splits)
  from Cons.IH [OF calm1 t vs, of acc'] obtain rs w' task' newf' where
    "batch_loop sv tid imgs tot k bs acc' w1 = Some (Inr rs, w')" "calm tid w'"
    "map_of (tasks (mgr w')) tid = Some task'"
    "map fst (batch_calls (trace w')) = map fst (batch_calls (trace w1)) @ map (\<lambda>b. snd (snd b)) bs"
    "batch_failures (trace w') = batch_failures (trace w1) @ newf'"
    "failed_pages task' = failed_pages task1 @ concat newf'"
    by blast
  with step f c b show ?case
    by (intro exI [of _ rs] exI [of _ w'] exI [of _ task'] exI [of _ "newf @ newf'"]) simp
qed

lemma group_in_range:
  assumes "0 < u" and "g < (n + u - 1) div u"
  shows "g * u < (n::nat)"
proof -
  from assms(2) have "Suc g \<le> (n + u - 1) div u" by simp
  then have "Suc g * u \<le> (n + u - 1) div u * u" by (rule mult_le_mono1)
  also have "\<dots> \<le> n + u - 1" by (rule div_times_less_eq_dividend)
  finally show ?thesis using assms(1) by simp
qed










text \<open>
  The same window on the chapter path: whatever the outcome of the first loop, each of
  its calls has at most \<open>context_batch_count\<close> prior results, none flagged, the last
  ones not flagged among the results collected before the call.
\<close>

lemma chapter_batch_loop_calls:
  "chapter_batch_loop sv k bs acc w = (out, w') \<Longrightarrow>
   (\<forall>rs. out = Inr rs \<longrightarrow> (\<exists>rest. rs = acc @ rest)) \<and>
   (\<exists>new. batch_calls (snd w') = batch_calls (snd w) @ new \<and>
      (\<forall>call \<in> set new. \<exists>prior mid.
          snd call = previous_results_for k prior \<and> prior = acc @ mid \<and>
          (\<forall>rs. out = Inr rs \<longrightarrow> (\<exists>rest. rs = prior @ rest))))"
proof (induction bs arbitrary: acc w)
  case Nil
  then show ?case by auto
next
  case (Cons b bs)
  let ?pn = "map fst b"
  let ?tr = "snd w @ [BatchCall ?pn (previous_results_for k acc)]"
  obtain r st' where a: "analyze_batch sv ?pn None (Some (map Some (map snd b))) False
      (Some (previous_results_for k acc)) (fst w) = (r, st')"
    by (cases "analyze_batch sv ?pn None (Some (map Some (map snd b))) False
      (Some (previous_results_for k acc)) (fst w)")
  show ?case
  proof (cases r)
    case (Inl e)
    with Cons.prems a have o: "out = Inl e" and w': "w' = (st', ?tr)" by (simp_all add: Let_def)
    have "\<exists>prior mid. previous_results_for k acc = previous_results_for k prior \<and> prior = acc @ mid"
      by (intro exI [of _ acc] exI [of _ "[]"]) simp
    with o w' show ?thesis
      by (intro conjI exI [of _ "[(?pn, previous_results_for k acc)]"]) simp_all
  next
    case (Inr res)
    with Cons.prems a have rec: "chapter_batch_loop sv k bs (acc @ [res]) (st', ?tr) = (out, w')"
      by (simp add: Let_def)
    from Cons.IH [OF rec] obtain new where
      e: "\<forall>rs. out = Inr rs \<longrightarrow> (\<exists>rest. rs = (acc @ [res]) @ rest)" and
      n: "batch_calls (snd w') = batch_calls ?tr @ new" and
      p: "\<forall>call \<in> set new. \<exists>prior mid.
          snd call = previous_results_for k prior \<and> prior = (acc @ [res]) @ mid \<and>
          (\<forall>rs. out = Inr rs \<longrightarrow> (\<exists>rest. rs = prior @ rest))"
      by auto
    have 1: "\<forall>rs. out = Inr rs \<longrightarrow> (\<exists>rest. rs = acc @ rest)" using e by auto
    have 2: "batch_calls (snd w') = batch_calls (snd w) @ ((?pn, previous_results_for k acc) # new)"
      using n by simp
    have 3: "\<forall>call \<in> set ((?pn, previous_results_for k acc) # new). \<exists>prior mid.
          snd call = previous_results_for k prior \<and> prior = acc @ mid \<and>
          (\<forall>rs. out = Inr rs \<longrightarrow> (\<exists>rest. rs = prior @ rest))"
    proof
      fix call assume "call \<in> set ((?pn, previous_results_for k acc) # new)"
      then consider "call = (?pn, previous_results_for k acc)" | "call \<in> set new" by auto
      then show "\<exists>prior mid. snd call = previous_results_for k prior \<and> prior = acc @ mid \<and>
          (\<forall>rs. out = Inr rs \<longrightarrow> (\<exists>rest. rs = prior @ rest))"
      proof cases
        case 1
        with \<open>\<forall>rs. out = Inr rs \<longrightarrow> (\<exists>rest. rs = acc @ rest)\<close> show ?thesis
          by (intro exI [of _ acc] exI [of _ "[]"]) simp
      next
        case 2
        with p obtain prior mid where "snd call = previous_results_for k prior"
          "prior = (acc @ [res]) @ mid"
          "\<forall>rs. out = Inr rs \<longrightarrow> (\<exists>rest. rs = prior @ rest)" by blast
        then show ?thesis by (intro exI [of _ prior] exI [of _ "[res] @ mid"]) simp
      qed
    qed
    from 1 2 3 show ?thesis by blast
  qed
qed

lemma chapter_context_window:
  assumes "0 < k"
    and "chapter_batch_layer sv ppb k chapter_images w = (out, w')"
  shows "\<exists>new. batch_calls (snd w') = batch_calls (snd w) @ new \<and>
           (\<forall>call \<in> set new.
              length (snd call) \<le> nat k \<and>
              list_all unflagged (snd call) \<and>
              (\<exists>prior. snd call = drop (length (filter unflagged prior) - nat k) (filter unflagged prior) \<and>
                 (\<forall>rs. out = Inr rs \<longrightarrow> (\<exists>later. rs = prior @ later))))"
proof (cases "ppb = 0")
  case True
  with assms(2) have "w' = w" by (simp add: chapter_batch_layer_def)
  then show ?thesis by simp
next
  case False
  show ?thesis
  proof (cases "range_step (length chapter_images) ppb")
    case (Inl e)
    with False assms(2) have "w' = w" by (simp add: chapter_batch_layer_def)
    then show ?thesis by simp
  next
    case (Inr starts)
    with False assms(2) have "chapter_batch_loop sv k
        (map (\<lambda>i. py_slice chapter_images i (i + ppb)) starts) [] w = (out, w')"
      by (simp add: chapter_batch_layer_def)
    from chapter_batch_loop_calls [OF this] obtain new where
      n: "batch_calls (snd w') = batch_calls (snd w) @ new" and
      p: "\<forall>call \<in> set new. \<exists>prior mid. snd call = previous_results_for k prior \<and> prior = [] @ mid \<and>
          (\<forall>rs. out = Inr rs \<longrightarrow> (\<exists>rest. rs = prior @ rest))"
      by blast
    have "\<forall>call \<in> set new.
              length (snd call) \<le> nat k \<and>
              list_all unflagged (snd call) \<and>
              (\<exists>prior. snd call = drop (length (filter unflagged prior) - nat k) (filter unflagged prior) \<and>
                 (\<forall>rs. out = Inr rs \<longrightarrow> (\<exists>later. rs = prior @ later)))"
    proof
      fix call assume "call \<in> set new"
      with p obtain prior where q: "snd call = previous_results_for k prior"
        "\<forall>rs. out = Inr rs \<longrightarrow> (\<exists>rest. rs = prior @ rest)" by blast
      have "length (snd call) \<le> nat k"
        unfolding q(1) by (rule previous_results_for_length [OF assms(1)])
      moreover have "list_all unflagged (snd call)"
        unfolding q(1) by (auto simp: list_all_iff dest: previous_results_for_unflagged)
      moreover have "snd call = drop (length (filter unflagged prior) - nat k) (filter unflagged prior)"
        unfolding q(1) by (rule previous_results_for_window [OF assms(1)])
      ultimately show "length (snd call) \<le> nat k \<and> list_all unflagged (snd call) \<and>
              (\<exists>prior. snd call = drop (length (filter unflagged prior) - nat k) (filter unflagged prior) \<and>
                 (\<forall>rs. out = Inr rs \<longrightarrow> (\<exists>later. rs = prior @ later)))"
        using q(2) by blast
    qed
    with n show ?thesis by blast
  qed
qed

text \<open>
  Claim C8. The analysis of a batch raises an error, in an undisturbed run over pages of
  the book. Then the batch's page numbers are appended to the task's failed-pages list,
  the failure is logged, and the loop goes on with the next batch and the results it
  had: it returns a list of results, not an error, has called \<open>analyze_batch\<close> for
  every later batch, and the failed-pages list still begins with what it held and the
  pages of the failed batch.
\<close>

theorem batch_failure_continues:
  assumes "calm tid w"
    and "map_of (tasks (mgr w)) tid = Some task"
    and "images_for imgs pn = Inr infos"
    and "pn \<noteq> []"
    and "analyze_batch sv pn None (Some (map Some infos)) True (Some (previous_results_for k acc)) (wld w)
           = (Inl e, st')"
    and "list_all (\<lambda>b. valid_batch imgs (snd (snd b))) later"
  shows "\<exists>w1. batch_loop sv tid imgs tot k ((idx, ch, pn) # later) acc w
                 = batch_loop sv tid imgs tot k later acc w1 \<and>
              failed_pages_of (mgr w1) tid = failed_pages task @ pn \<and>
              batch_failures (trace w1) = batch_failures (trace w) @ [pn] \<and>
              (\<exists>rs w' more.
                  batch_loop sv tid imgs tot k later acc w1 = Some (Inr rs, w') \<and>
                  map fst (batch_calls (trace w'))
                    = map fst (batch_calls (trace w)) @ pn # map (\<lambda>b. snd (snd b)) later \<and>
                  failed_pages_of (mgr w') tid = failed_pages task @ pn @ more)"
proof -
  from single_batch_raises [OF assms(3,4,5,2), where idx = idx and tot = tot] assms(1) obtain w1 where
    s: "analyze_single_batch sv tid imgs pn idx tot acc k w = (Inr None, w1)" and
    f: "failed_pages_of (mgr w1) tid = failed_pages task @ pn"
       "batch_failures (trace w1) = batch_failures (trace w) @ [pn]" and
    c: "batch_calls (trace w1) = batch_calls (trace w) @ [(pn, previous_results_for k acc)]" and
    calm1: "calm tid w1"
    by blast
  have step: "batch_loop sv tid imgs tot k ((idx, ch, pn) # later) acc w
      = batch_loop sv tid imgs tot k later acc w1"
    using assms(1) s by (simp add: check_calm)
  from f(1) obtain task1 where t1: "map_of (tasks (mgr w1)) tid = Some task1"
    and ft: "failed_pages task1 = failed_pages task @ pn"
    using assms(4) by (auto simp: failed_pages_of_def split: option.splits)
  from batch_loop_calm [OF calm1 t1 assms(6), where sv = sv and tot = tot and k = k and acc = acc] obtain rs w' task' newf where
    r: "batch_loop sv tid imgs tot k later acc w1 = Some (Inr rs, w')"
    "map_of (tasks (mgr w')) tid = Some task'"
    "map fst (batch_calls (trace w')) = map fst (batch_calls (trace w1)) @ map (\<lambda>b. snd (snd b)) later"
    "failed_pages task' = failed_pages task1 @ concat newf"
    by blast
  have "failed_pages_of (mgr w') tid = failed_pages task @ pn @ concat newf"
    using r(2,4) ft by (simp add: failed_pages_of_def)
  with step f r(1,3) c show ?thesis
    by (intro exI [of _ w1] conjI exI [of _ rs] exI [of _ w'] exI [of _ "concat newf"]) simp_all
qed

lemma demo_failing_batch:
  "analyze_batch demo_services [6, 7, 8, 9, 10] None
     (Some (map Some
        [[(''path'', JStr ''page.png'')], [(''path'', JStr ''page.png'')], [(''path'', JStr ''page.png'')], [(''path'', JStr ''page.png'')], [(''path'', JStr ''page.png'')]])) True
     (Some (previous_results_for 1 [])) (wld calm_worker)
   = (Inl (ClientError ''timeout''),
      empty_world\<lparr>vlm_calls := [([''image'', ''image'', ''image'', ''image'', ''image''], 6, [])]\<rparr>)"
  by (simp add: analyze_batch_def analyze_batch_fresh_def py_min_def py_max_def demo_services_def
      calm_worker_def empty_world_def get_image_from_info_def image_info_at_def dict_get_def
      build_batch_context_def previous_results_for_def py_slice_from_def list_batches_def
      enumerate_eq_zip upt_rec numeral_2_eq_2 numeral_3_eq_3 Let_def)

theorem batch_failure_continues_witness:
  "\<exists>w1. batch_loop demo_services ''task-1'' demo_images 3 1
            [(1, None, [6, 7, 8, 9, 10]), (2, None, [11, 12])] [] calm_worker
          = batch_loop demo_services ''task-1'' demo_images 3 1 [(2, None, [11, 12])] [] w1 \<and>
        failed_pages_of (mgr w1) ''task-1'' = [6, 7, 8, 9, 10] \<and>
        batch_failures (trace w1) = [[6, 7, 8, 9, 10]] \<and>
        (\<exists>rs w' more.
            batch_loop demo_services ''task-1'' demo_images 3 1 [(2, None, [11, 12])] [] w1
              = Some (Inr rs, w') \<and>
            map fst (batch_calls (trace w')) = [[6, 7, 8, 9, 10], [11, 12]] \<and>
            failed_pages_of (mgr w') ''task-1'' = [6, 7, 8, 9, 10] @ more)"
proof -
  have i: "images_for demo_images [6, 7, 8, 9, 10] = Inr [[(''path'', JStr ''page.png'')], [(''path'', JStr ''page.png'')], [(''path'', JStr ''page.png'')], [(''path'', JStr ''page.png'')], [(''path'', JStr ''page.png'')]]"
    by (simp add: demo_images_def py_index_def numeral_eq_Suc)
  have n: "[6, 7, 8, 9, 10] \<noteq> ([]::int list)" by simp
  have v: "list_all (\<lambda>b. valid_batch demo_images (snd (snd b))) [(2::nat, None::string option, [11, 12])]"
    by (simp add: valid_batch_def demo_images_def)
  from batch_failure_continues [OF calm_calm_worker calm_worker_task i n demo_failing_batch v,
      where tot = 3 and idx = 1 and ch = None]
  show ?thesis
    by (simp add: new_task_def calm_worker_def)
qed

subsection \<open>Undisturbed summary layers\<close>


lemma py_slice_nth:
  assumes "a \<le> b" and "b \<le> length xs"
  shows "py_slice xs (int a) (int b) = map ((!) xs) [a..<b]"
proof -
  have "take (b - a) (drop a xs) = map ((!) xs) [a..<b]"
    using assms by (intro nth_equalityI) auto
  moreover have "slice_index (length xs) (int a) = a" "slice_index (length xs) (int b) = b"
    using assms by (simp_all add: slice_index_def)
  ultimately show ?thesis by (simp add: py_slice_def)
qed

lemma group_of_nth:
  assumes "g * u < length xs"
  shows "group_of xs (int u) g = map ((!) xs) [g * u..<min ((g + 1) * u) (length xs)]"
proof -
  have "int g * int u = int (g * u)" by simp
  moreover have "int g * int u + int u = int ((g + 1) * u)"
    by (simp add: algebra_simps)
  then have "min (int g * int u + int u) (int (length xs)) = int (min ((g + 1) * u) (length xs))"
    by (simp only: of_nat_min)
  moreover have "g * u \<le> min ((g + 1) * u) (length xs)"
    using assms by simp
  ultimately show ?thesis
    using py_slice_nth [of "g * u" "min ((g + 1) * u) (length xs)" xs] by simp
qed

text \<open>
  In every run of the loop that returns, undisturbed or not, the groups summarised are an
  initial part of the groups of the layer: the loop stops early only at a checkpoint.
\<close>

lemma summary_loop_prefix:
  "summary_loop sv tid xs u layer gs acc w = Some (rs, w') \<Longrightarrow>
   \<exists>j. segment_calls (trace w')
        = segment_calls (trace w) @ map (\<lambda>g. (segment_name layer g, group_of xs u g)) (take j gs)"
proof (induction gs arbitrary: acc w)
  case Nil
  then show ?case by simp
next
  case (Cons g gs)
  from Cons.prems obtain go w1 where c: "check_pause_and_cancel tid w = Some (go, w1)"
    by (auto split: option.splits)
  from trace_check_pause_and_cancel [OF c] have t1: "trace w1 = trace w" by simp
  show ?case
  proof (cases go)
    case False
    with Cons.prems c t1 have "trace w' = trace w" by auto
    then show ?thesis by (intro exI [of _ 0]) simp
  next
    case True
    let ?sid = "segment_name layer g"
    let ?w2 = "w1\<lparr>trace := trace w1 @ [SegmentCall ?sid (group_of xs u g)]\<rparr>"
    obtain r st' where r: "generate_segment_summary sv ?sid (group_of xs u g) True (wld w1) = (r, st')"
      by (cases "generate_segment_summary sv ?sid (group_of xs u g) True (wld w1)")
    obtain acc' w3 where rec: "summary_loop sv tid xs u layer gs acc' w3 = Some (rs, w')"
      and t3: "segment_calls (trace w3) = segment_calls (trace w) @ [(?sid, group_of xs u g)]"
    proof (cases r)
      case (Inl e)
      with Cons.prems c True r that [of acc
          "notify_progress tid (?w2\<lparr>wld := st', trace := trace ?w2 @ [SegmentFailed ?sid e]\<rparr>)"] t1
      show ?thesis by (simp add: Let_def)
    next
      case (Inr seg)
      with Cons.prems c True r that [of "acc @ [seg]" "notify_progress tid (?w2\<lparr>wld := st'\<rparr>)"] t1
      show ?thesis by (simp add: Let_def)
    qed
    from Cons.IH [OF rec] obtain j where
      "segment_calls (trace w')
        = segment_calls (trace w3) @ map (\<lambda>g. (segment_name layer g, group_of xs u g)) (take j gs)"
      by blast
    with t3 show ?thesis by (intro exI [of _ "Suc j"]) simp
  qed
qed

text \<open>
  The number of groups \<open>(n + u - 1) div u\<close> is the ceiling of \<open>n / u\<close>: the
  least \<open>c\<close> with \<open>n \<le> c * u\<close>.
\<close>

lemma ceil_div_bounds:
  assumes "0 < u" and "0 < (n::nat)"
  shows "((n + u - 1) div u - 1) * u < n \<and> n \<le> (n + u - 1) div u * u"
proof -
  let ?c = "(n + u - 1) div u"
  have "0 < ?c" using assms by (simp add: div_greater_zero_iff)
  then have "?c - 1 < ?c" by simp
  from group_in_range [OF assms(1) this] have 1: "(?c - 1) * u < n" .
  have "n + u - 1 < (?c + 1) * u"
    using assms(1) dividend_less_div_times [of u "n + u - 1"] by (simp add: algebra_simps)
  then have 2: "n \<le> ?c * u" using assms(1) by (simp add: algebra_simps)
  from 1 2 show ?thesis ..
qed

lemma total_groups_nat:
  assumes "0 < u" and "xs \<noteq> []"
  shows "nat ((int (length xs) + u - 1) div u) = (length xs + nat u - 1) div nat u"
proof -
  from assms have "int (length xs) + u - 1 = int (length xs + nat u - 1)" by simp
  moreover have "u = int (nat u)" using assms by simp
  ultimately have "(int (length xs) + u - 1) div u = int ((length xs + nat u - 1) div nat u)"
    by (metis zdiv_int)
  then show ?thesis by simp
qed



text \<open>
  The same grouping on the chapter path: a pass over a middle layer that returns has
  called \<open>generate_segment_summary\<close> for exactly these groups.
\<close>

lemma chapter_group_loop_calls:
  "chapter_group_loop sv ch layer xs u gs acc w = (Inr rs, w') \<Longrightarrow>
   segment_calls (snd w')
     = segment_calls (snd w) @ map (\<lambda>g. (chapter_segment_name ch layer g, group_of xs u g)) gs"
proof (induction gs arbitrary: acc w)
  case Nil
  then show ?case by simp
next
  case (Cons g gs)
  then show ?case
    by (auto simp: Let_def split: prod.splits sum.splits)
qed

lemma chapter_summary_layer_groups:
  assumes "chapter_summary_layer sv ch layer u xs w = (Inr rs, w')"
  shows "map snd (segment_calls (snd w')) = map snd (segment_calls (snd w)) @
           (if xs = [] then []
            else if u \<le> 0 then [xs]
            else map (\<lambda>g. map ((!) xs) [g * nat u..<min ((g + 1) * nat u) (length xs)])
                   [0..<(length xs + nat u - 1) div nat u])"
proof (cases "xs = []")
  case True
  with assms show ?thesis by (simp add: chapter_summary_layer_def Let_def)
next
  case False
  define units where "units = (if u \<le> 0 then int (length xs) else u)"
  define total where "total = nat ((int (length xs) + units - 1) div units)"
  have pos: "0 < units" using False by (simp add: units_def)
  have units: "(if u \<le> 0 then max (int (length xs)) 1 else u) = units"
    using False by (cases xs) (simp_all add: units_def)
  have total: "total = (length xs + nat units - 1) div nat units"
    unfolding total_def by (rule total_groups_nat [OF pos False])
  from assms False have "chapter_group_loop sv ch layer xs units [0..<total] [] w = (Inr rs, w')"
    by (simp add: chapter_summary_layer_def units total_def Let_def)
  from chapter_group_loop_calls [OF this]
  have calls: "segment_calls (snd w')
      = segment_calls (snd w) @ map (\<lambda>g. (chapter_segment_name ch layer g, group_of xs units g)) [0..<total]" .
  have groups: "map (\<lambda>g. group_of xs units g) [0..<total]
      = map (\<lambda>g. map ((!) xs) [g * nat units..<min ((g + 1) * nat units) (length xs)]) [0..<total]"
  proof (rule map_cong [OF refl])
    fix g assume "g \<in> set [0..<total]"
    then have "g < (length xs + nat units - 1) div nat units" by (simp add: total)
    with pos have "g * nat units < length xs" by (intro group_in_range) simp_all
    from group_of_nth [OF this] pos
    show "group_of xs units g = map ((!) xs) [g * nat units..<min ((g + 1) * nat units) (length xs)]"
      by simp
  qed
  have snds: "map snd (segment_calls (snd w'))
      = map snd (segment_calls (snd w)) @
        map (\<lambda>g. map ((!) xs) [g * nat units..<min ((g + 1) * nat units) (length xs)]) [0..<total]"
    using calls groups by (simp add: comp_def)
  show ?thesis
  proof (cases "u \<le> 0")
    case True
    then have u: "nat units = length xs" by (simp add: units_def)
    have "(length xs + length xs - 1) div length xs = 1"
      using False by (intro div_nat_eqI) (simp_all add: Suc_le_eq)
    then have "total = 1" by (simp add: total u)
    moreover have "map ((!) xs) [0..<length xs] = xs" by (rule map_nth)
    ultimately show ?thesis using False True snds u by simp
  next
    case False
    then have "units = u" by (simp add: units_def)
    with \<open>xs \<noteq> []\<close> False snds total show ?thesis by auto
  qed
qed














end
